theory Spec2Isabelle
  imports Complex_Main "HOL-Library.AList"
begin

section \<open>Data model (Creature.ts, types.ts)\<close>

text \<open>
  JavaScript numbers are idealised as real numbers: rounding, NaN and the infinities of
  IEEE doubles are not modelled, except that the value \<open>-Infinity\<close> of \<open>Math.max()\<close> on
  an empty argument list is the value \<open>None\<close> of \<open>Math_max\<close>.

  A matter-js body is a record of the fields the repository reads or writes. A constraint
  refers to its two bodies by their index in the owning creature's \<open>bodies\<close> array: every
  muscle is built from two elements of that array, and an index beyond the array stands for
  a body that is not found there.
\<close>

record Body =
  position_x :: real
  position_y :: real
  velocity_x :: real
  velocity_y :: real
  angle :: real
  anglePrev :: real
  angularVelocity :: real
  angularSpeed :: real
  isStatic :: bool

datatype ActivationType = Periodic | OnGroundContact

record MuscleConfig =
  restLength :: real
  stiffness :: real
  activationType :: ActivationType
  period :: "real option"
  extensionFactor :: "real option"

record Constraint =
  bodyA :: nat
  bodyB :: nat
  clength :: real
  cstiffness :: real

record Muscle =
  constraint :: Constraint
  config :: MuscleConfig
  timer :: real
  active :: bool

record Creature =
  bodies :: "Body list"
  muscles :: "Muscle list"
  bornAt :: real
  maxX :: real
  cid :: real

subsection \<open>Muscle\<close>

text \<open>The constructor of \<open>Muscle\<close>: \<open>timer = 0\<close>, \<open>active = false\<close>, and a constraint of the
  configured rest length and stiffness between the bodies \<open>a\<close> and \<open>b\<close>.\<close>

definition Muscle_new :: "nat \<Rightarrow> nat \<Rightarrow> MuscleConfig \<Rightarrow> Muscle" where
  "Muscle_new a b cfg =
     \<lparr>constraint = \<lparr>bodyA = a, bodyB = b, clength = restLength cfg, cstiffness = stiffness cfg\<rparr>,
      config = cfg, timer = 0, active = False\<rparr>"

text \<open>\<open>config.period ?? 1000\<close> and \<open>config.extensionFactor ?? 1.5\<close>.\<close>

definition period_or_default :: "MuscleConfig \<Rightarrow> real" where
  "period_or_default cfg = (case period cfg of None \<Rightarrow> 1000 | Some p \<Rightarrow> p)"

definition extension_or_default :: "MuscleConfig \<Rightarrow> real" where
  "extension_or_default cfg = (case extensionFactor cfg of None \<Rightarrow> 3 / 2 | Some e \<Rightarrow> e)"

text \<open>The first half of \<open>Muscle.update\<close>: the activation state machine.\<close>

definition activate :: "Body list \<Rightarrow> real \<Rightarrow> real \<Rightarrow> Muscle \<Rightarrow> Muscle" where
  "activate bs delta groundY m =
     (case activationType (config m) of
        Periodic \<Rightarrow>
          (let m1 = m\<lparr>timer := timer m + delta\<rparr>
           in if period_or_default (config m1) \<le> timer m1
              then m1\<lparr>active := \<not> active m1, timer := 0\<rparr>
              else m1)
      | OnGroundContact \<Rightarrow>
          (let a = bodyA (constraint m); b = bodyB (constraint m)
           in if a < length bs \<and> b < length bs \<and>
                 (groundY \<le> position_y (bs ! a) \<or> groundY \<le> position_y (bs ! b))
              then m\<lparr>active := \<not> active m\<rparr>
              else m))"

text \<open>\<open>Muscle.update(delta, groundY)\<close>; \<open>bs\<close> is the body array the constraint's indices
  refer to.\<close>

definition Muscle_update :: "Body list \<Rightarrow> real \<Rightarrow> real \<Rightarrow> Muscle \<Rightarrow> Muscle" where
  "Muscle_update bs delta groundY m =
     (let m1 = activate bs delta groundY m;
          target = (if active m1
                    then restLength (config m1) * extension_or_default (config m1)
                    else restLength (config m1))
      in m1\<lparr>constraint := (constraint m1)\<lparr>clength := target\<rparr>\<rparr>)"

subsection \<open>Creature\<close>

text \<open>\<open>Math.max(x, ...xs)\<close> with at least one argument, and \<open>Math.max(...xs)\<close>, which is
  \<open>-Infinity\<close> (here \<open>None\<close>) when \<open>xs\<close> is empty.\<close>

definition Math_max1 :: "real \<Rightarrow> real list \<Rightarrow> real" where
  "Math_max1 x xs = foldl max x xs"

definition Math_max :: "real list \<Rightarrow> real option" where
  "Math_max xs = (case xs of [] \<Rightarrow> None | x # r \<Rightarrow> Some (Math_max1 x r))"

text \<open>The constructor of \<open>Creature\<close>: \<open>t0\<close> is the reading of \<open>Date.now()\<close> that initialises
  \<open>bornAt\<close>; \<open>t1\<close> is the later reading and \<open>u\<close> the draw of \<open>Math.random()\<close> that make the id.\<close>

definition Creature_new :: "Body list \<Rightarrow> Muscle list \<Rightarrow> real \<Rightarrow> real \<Rightarrow> real \<Rightarrow> Creature" where
  "Creature_new bs ms t0 t1 u = \<lparr>bodies = bs, muscles = ms, bornAt = t0, maxX = 0, cid = t1 + u\<rparr>"

text \<open>\<open>Creature.update(delta, groundY)\<close>.\<close>

definition Creature_update :: "real \<Rightarrow> real \<Rightarrow> Creature \<Rightarrow> Creature" where
  "Creature_update delta groundY c =
     c\<lparr>muscles := map (Muscle_update (bodies c) delta groundY) (muscles c),
       maxX := Math_max1 (maxX c) (map position_x (bodies c))\<rparr>"


section \<open>Creature generation (SimulationController.ts, class CreatureGenerator)\<close>

text \<open>
  A draw of \<open>Math.random()\<close> is a number in \<open>[0, 1)\<close>. A run of the generator reads its
  draws from a sequence \<open>rnd\<close>, the \<open>k\<close>-th call of \<open>Math.random()\<close> returning \<open>rnd k\<close>; the
  functions below thread the number \<open>k\<close> of draws made so far.
\<close>

typedef draw = "{u::real. 0 \<le> u \<and> u < 1}"
  morphisms draw_val Draw
  by (rule exI [of _ 0]) simp

type_synonym rng = "nat \<Rightarrow> draw"

definition Math_random :: "rng \<Rightarrow> nat \<Rightarrow> real" where
  "Math_random rnd k = draw_val (rnd k)"

text \<open>\<open>Math.floor(Math.random() * n)\<close>, an index below \<open>n\<close>.\<close>

definition random_index :: "rng \<Rightarrow> nat \<Rightarrow> nat \<Rightarrow> nat" where
  "random_index rnd k n = nat \<lfloor>Math_random rnd k * real n\<rfloor>"

lemma Math_random_range: "0 \<le> Math_random rnd k \<and> Math_random rnd k < 1"
  using draw_val [of "rnd k"] by (simp add: Math_random_def)

lemma random_index_less:
  assumes "0 < n"
  shows "random_index rnd k n < n"
proof -
  have u: "0 \<le> Math_random rnd k" "Math_random rnd k < 1"
    using Math_random_range by simp_all
  have "Math_random rnd k * real n < 1 * real n"
    using u(2) assms by (intro mult_strict_right_mono) simp_all
  then have "\<lfloor>Math_random rnd k * real n\<rfloor> < int n"
    by (simp add: floor_less_iff)
  moreover have "0 \<le> \<lfloor>Math_random rnd k * real n\<rfloor>"
    using u(1) by simp
  ultimately show ?thesis
    by (simp add: random_index_def nat_less_iff)
qed

text \<open>The constructor of \<open>PhysicsBody\<close>: a circle body at \<open>(x, y)\<close>, at rest.\<close>

definition PhysicsBody_new :: "real \<Rightarrow> real \<Rightarrow> Body" where
  "PhysicsBody_new x y =
     \<lparr>position_x = x, position_y = y, velocity_x = 0, velocity_y = 0,
      angle = 0, anglePrev = 0, angularVelocity = 0, angularSpeed = 0, isStatic = False\<rparr>"

definition getDistance :: "Body \<Rightarrow> Body \<Rightarrow> real" where
  "getDistance a b =
     (let dx = position_x a - position_x b; dy = position_y a - position_y b
      in sqrt (dx * dx + dy * dy))"

text \<open>The three muscle configurations the generator draws: for a ring muscle, a cross
  link and a repair muscle. Each makes four draws, the first being draw \<open>k\<close>.\<close>

definition ring_config :: "rng \<Rightarrow> nat \<Rightarrow> real \<Rightarrow> MuscleConfig" where
  "ring_config rnd k distance =
     \<lparr>restLength = distance,
      stiffness = 3 / 10 + Math_random rnd k * (7 / 10),
      activationType = (if Math_random rnd (k + 1) < 1 / 2 then Periodic else OnGroundContact),
      period = Some (250 + Math_random rnd (k + 2) * 1200),
      extensionFactor = Some (1 + Math_random rnd (k + 3) * (7 / 10))\<rparr>"

definition cross_config :: "rng \<Rightarrow> nat \<Rightarrow> real \<Rightarrow> MuscleConfig" where
  "cross_config rnd k distance =
     \<lparr>restLength = distance,
      stiffness = 3 / 10 + Math_random rnd k * (7 / 10),
      activationType = (if Math_random rnd (k + 1) < 1 / 2 then Periodic else OnGroundContact),
      period = Some (1000 + Math_random rnd (k + 2) * 1500),
      extensionFactor = Some (11 / 10 + Math_random rnd (k + 3) * (7 / 10))\<rparr>"

definition repair_config :: "rng \<Rightarrow> nat \<Rightarrow> real \<Rightarrow> MuscleConfig" where
  "repair_config rnd k distance =
     \<lparr>restLength = distance,
      stiffness = 3 / 10 + Math_random rnd k * (3 / 10),
      activationType = (if Math_random rnd (k + 1) < 1 / 2 then Periodic else OnGroundContact),
      period = Some (700 + Math_random rnd (k + 2) * 1200),
      extensionFactor = Some (1 + Math_random rnd (k + 3) * (4 / 10))\<rparr>"

subsection \<open>ensureMinimumConnections\<close>

text \<open>\<open>connectionMap\<close>, keyed by the body's index, and \<open>connectionMap.get(b) || 0\<close>.\<close>

type_synonym connectionMap = "nat \<rightharpoonup> nat"

definition conn_get :: "connectionMap \<Rightarrow> nat \<Rightarrow> nat" where
  "conn_get cm b = (case cm b of None \<Rightarrow> 0 | Some n \<Rightarrow> n)"

text \<open>The second \<open>forEach\<close>: a muscle counts once for each of its two bodies that is found
  among \<open>bodies\<close>.\<close>

definition count_muscle :: "nat \<Rightarrow> connectionMap \<Rightarrow> Muscle \<Rightarrow> connectionMap" where
  "count_muscle n cm m =
     (let a = bodyA (constraint m); b = bodyB (constraint m);
          cm1 = (if a < n then cm(a \<mapsto> conn_get cm a + 1) else cm)
      in if b < n then cm1(b \<mapsto> conn_get cm1 b + 1) else cm1)"

definition initial_connections :: "nat \<Rightarrow> Muscle list \<Rightarrow> connectionMap" where
  "initial_connections n ms =
     foldl (count_muscle n) (foldl (\<lambda>cm b. cm(b \<mapsto> 0)) Map.empty [0..<n]) ms"

text \<open>The \<open>while\<close> loop for one body. The state is the connection map, the muscle list and
  the number of draws made.\<close>

function connect_body ::
  "rng \<Rightarrow> Body list \<Rightarrow> nat \<Rightarrow> connectionMap \<times> Muscle list \<times> nat \<Rightarrow> connectionMap \<times> Muscle list \<times> nat"
where
  "connect_body rnd bs body (cm, ms, k) =
     (if conn_get cm body < 2 then
        (let potentialTargets = filter (\<lambda>target. target \<noteq> body \<and> conn_get cm target < 2) [0..<length bs]
         in if potentialTargets = [] then (cm, ms, k)
            else
              (let target = potentialTargets ! random_index rnd k (length potentialTargets);
                   distance = getDistance (bs ! body) (bs ! target);
                   m = Muscle_new body target (repair_config rnd (k + 1) distance);
                   cm1 = cm(body \<mapsto> conn_get cm body + 1);
                   cm2 = cm1(target \<mapsto> conn_get cm1 target + 1)
               in connect_body rnd bs body (cm2, ms @ [m], k + 5)))
      else (cm, ms, k))"
  by pat_completeness auto
termination
proof (relation "measure (\<lambda>(rnd, bs, body, cm, ms, k). 2 - conn_get cm body)", goal_cases)
  case 1
  show ?case by simp
next
  case (2 rnd bs body cm ms k potentialTargets target distance m cm1 cm2)
  have "random_index rnd k (length potentialTargets) < length potentialTargets"
    using 2(3) by (intro random_index_less) simp
  then have "target \<in> set potentialTargets"
    using 2(4) by simp
  then have "target \<noteq> body"
    using 2(2) by auto
  then have "conn_get cm2 body = conn_get cm body + 1"
    using 2(7,8) by (simp add: conn_get_def)
  then show ?case
    using 2(1) by simp
qed

declare connect_body.simps [simp del]

definition ensureMinimumConnections ::
  "rng \<Rightarrow> Body list \<Rightarrow> Muscle list \<Rightarrow> nat \<Rightarrow> Muscle list \<times> nat" where
  "ensureMinimumConnections rnd bs ms k =
     (let connectionMap = initial_connections (length bs) ms;
          (cm, ms', k') = foldl (\<lambda>st body. connect_body rnd bs body st) (connectionMap, ms, k) [0..<length bs]
      in (ms', k'))"

text \<open>The degree of a body: the number of muscles of \<open>ms\<close> that are incident to body
  \<open>b\<close>, that is, have it as one of their two ends.\<close>

definition incident :: "Muscle list \<Rightarrow> nat \<Rightarrow> nat" where
  "incident ms b = length (filter (\<lambda>m. bodyA (constraint m) = b \<or> bodyB (constraint m) = b) ms)"

subsection \<open>createRandomCreature\<close>

text \<open>The three \<open>for\<close> loops, each from its loop variable \<open>i\<close> on.\<close>

function place_bodies ::
  "rng \<Rightarrow> real \<Rightarrow> nat \<Rightarrow> real \<Rightarrow> nat \<Rightarrow> Body list \<Rightarrow> nat \<Rightarrow> Body list \<times> nat" where
  "place_bodies rnd groundY count radius i bs k =
     (if i < count then
        (let angle = (real i / real count) * pi * 2;
             x = - 100 + cos angle * radius + (Math_random rnd k - 1 / 2) * 20;
             y = (groundY - 100) + sin angle * radius + (Math_random rnd (k + 1) - 1 / 2) * 20
         in place_bodies rnd groundY count radius (i + 1) (bs @ [PhysicsBody_new x y]) (k + 2))
      else (bs, k))"
  by pat_completeness auto
termination
  by (relation "measure (\<lambda>(rnd, groundY, count, radius, i, bs, k). count - i)") auto

declare place_bodies.simps [simp del]

function ring_muscles ::
  "rng \<Rightarrow> Body list \<Rightarrow> nat \<Rightarrow> nat \<Rightarrow> Muscle list \<Rightarrow> nat \<Rightarrow> Muscle list \<times> nat" where
  "ring_muscles rnd bs count i ms k =
     (if i < count then
        (let current = i; next = (i + 1) mod count;
             distance = getDistance (bs ! current) (bs ! next)
         in ring_muscles rnd bs count (i + 1)
              (ms @ [Muscle_new current next (ring_config rnd k distance)]) (k + 4))
      else (ms, k))"
  by pat_completeness auto
termination
  by (relation "measure (\<lambda>(rnd, bs, count, i, ms, k). count - i)") auto

declare ring_muscles.simps [simp del]

function cross_muscles ::
  "rng \<Rightarrow> Body list \<Rightarrow> nat \<Rightarrow> nat \<Rightarrow> nat \<Rightarrow> Muscle list \<Rightarrow> nat \<Rightarrow> Muscle list \<times> nat" where
  "cross_muscles rnd bs count crossConnections i ms k =
     (if i < crossConnections then
        (let a = random_index rnd k count; b = random_index rnd (k + 1) count
         in if a \<noteq> b then
              (let distance = getDistance (bs ! a) (bs ! b)
               in cross_muscles rnd bs count crossConnections (i + 1)
                    (ms @ [Muscle_new a b (cross_config rnd (k + 2) distance)]) (k + 6))
            else cross_muscles rnd bs count crossConnections (i + 1) ms (k + 2))
      else (ms, k))"
  by pat_completeness auto
termination
  by (relation "measure (\<lambda>(rnd, bs, count, crossConnections, i, ms, k). crossConnections - i)") auto

declare cross_muscles.simps [simp del]

text \<open>\<open>createRandomCreature()\<close>. \<open>t0\<close> and \<open>t1\<close> are the two readings of \<open>Date.now()\<close> in the
  constructor of \<open>Creature\<close> (for \<open>bornAt\<close> and for the id); the last draw makes the id.\<close>

definition createRandomCreature :: "rng \<Rightarrow> real \<Rightarrow> real \<Rightarrow> real \<Rightarrow> Creature" where
  "createRandomCreature rnd groundY t0 t1 =
     (let count = 4 + random_index rnd 0 8;
          radius = 15 + Math_random rnd 1 * 30;
          (bs, k1) = place_bodies rnd groundY count radius 0 [] 2;
          (ms1, k2) = ring_muscles rnd bs count 0 [] k1;
          crossConnections = count div 2 + random_index rnd k2 2;
          (ms2, k3) = cross_muscles rnd bs count crossConnections 0 ms1 (k2 + 1);
          (ms3, k4) = ensureMinimumConnections rnd bs ms2 k3
      in Creature_new bs ms3 t0 t1 (Math_random rnd k4))"

section \<open>The object store\<close>

text \<open>
  Creature objects are shared: the controller's \<open>creatures\<close> array and the world's
  \<open>creatures\<close> map hold the same \<open>bodies\<close> and \<open>muscles\<close> arrays, the physics engine moves
  the bodies in place, and the controller compares creatures by object identity
  (\<open>includes\<close>, \<open>!==\<close>). So a creature is held by reference: a \<open>ref\<close> is the identity of
  a \<open>Creature\<close> object and the store maps it to the object's current state. \<open>new Creature\<close>
  takes the next unused reference; a cell never written holds \<open>blank\<close>.
\<close>

type_synonym ref = nat

type_synonym store = "ref \<Rightarrow> Creature"

definition blank :: Creature where
  "blank = \<lparr>bodies = [], muscles = [], bornAt = 0, maxX = 0, cid = 0\<rparr>"

section \<open>The physics world (World.ts, classes BasePhysicsWorld and MainWorld)\<close>

text \<open>
  The first of the two versions of World.ts in the sources, the one that keeps
  \<open>creatureMaxDistances\<close>. A JavaScript \<open>Map\<close> is an association list in insertion order:
  \<open>get\<close> is \<open>map_of\<close>, \<open>set\<close> is \<open>AList.update\<close> (an existing key keeps its place, a new one
  goes last), \<open>delete\<close> is \<open>AList.delete\<close>. The world's \<open>creatures\<close> map holds, for an id,
  the creature whose \<open>bodies\<close> and \<open>muscles\<close> arrays the entry refers to. The rendering
  state and the engine's own list of bodies and constraints are left out.
\<close>

record World =
  world_creatures :: "(real \<times> ref) list"
  creatureMaxDistances :: "(real \<times> real) list"
  distanceBins :: "nat list"

definition World_new :: World where
  "World_new = \<lparr>world_creatures = [], creatureMaxDistances = [], distanceBins = []\<rparr>"

text \<open>\<open>MainWorld.addCreature(creature)\<close>; \<open>i\<close> is the creature's id.\<close>

definition addCreature :: "real \<Rightarrow> ref \<Rightarrow> World \<Rightarrow> World" where
  "addCreature i r w = w\<lparr>world_creatures := AList.update i r (world_creatures w)\<rparr>"

text \<open>The lines that \<open>removeCreature\<close> and \<open>update\<close> share: the furthest \<open>x\<close> of the bodies
  replaces the recorded distance of the id when it is greater than
  \<open>creatureMaxDistances.get(id) || 0\<close>.\<close>

definition record_distance :: "real \<Rightarrow> Body list \<Rightarrow> (real \<times> real) list \<Rightarrow> (real \<times> real) list" where
  "record_distance i bs dists =
     (let prev = (case map_of dists i of None \<Rightarrow> 0 | Some d \<Rightarrow> d)
      in case Math_max (map position_x bs) of
           None \<Rightarrow> dists
         | Some furthest \<Rightarrow> if prev < furthest then AList.update i furthest dists else dists)"

text \<open>\<open>BasePhysicsWorld.removeCreature(creatureId)\<close>, on the store \<open>h\<close>.\<close>

definition removeCreature :: "store \<Rightarrow> real \<Rightarrow> World \<Rightarrow> World" where
  "removeCreature h i w =
     (case map_of (world_creatures w) i of
        None \<Rightarrow> w
      | Some r \<Rightarrow>
          w\<lparr>creatureMaxDistances := record_distance i (bodies (h r)) (creatureMaxDistances w),
            world_creatures := AList.delete i (world_creatures w)\<rparr>)"

text \<open>The \<open>while\<close> loop that grows \<open>distanceBins\<close> up to the index \<open>binIndex\<close>.\<close>

function grow_bins :: "nat list \<Rightarrow> int \<Rightarrow> nat list" where
  "grow_bins bins binIndex =
     (if int (length bins) \<le> binIndex then grow_bins (bins @ [0]) binIndex else bins)"
  by pat_completeness auto
termination
  by (relation "measure (\<lambda>(bins, binIndex). nat (binIndex + 1 - int (length bins)))") auto

declare grow_bins.simps [simp del]

text \<open>The body of the \<open>forEach\<close> that rebuilds the histogram. A negative index writes no
  element of a JavaScript array: the bins stay as they are.\<close>

definition count_distance :: "nat list \<Rightarrow> real \<Rightarrow> nat list" where
  "count_distance bins d =
     (let binIndex = \<lfloor>d / 100\<rfloor>;
          bins1 = grow_bins bins binIndex
      in if 0 \<le> binIndex then bins1[nat binIndex := bins1 ! nat binIndex + 1] else bins1)"

text \<open>\<open>BasePhysicsWorld.update(delta)\<close> after \<open>Engine.update\<close>: \<open>h\<close> is the store as the
  engine left it.\<close>

definition World_update :: "store \<Rightarrow> World \<Rightarrow> World" where
  "World_update h w =
     (let dists = foldl (\<lambda>dists (i, r). record_distance i (bodies (h r)) dists)
                    (creatureMaxDistances w) (world_creatures w)
      in w\<lparr>creatureMaxDistances := dists,
           distanceBins := foldl count_distance [] (map snd dists)\<rparr>)"


text \<open>\<open>BasePhysicsWorld.cleanup()\<close>, but for the renderer it stops.\<close>

definition World_cleanup :: "World \<Rightarrow> World" where
  "World_cleanup w = w\<lparr>world_creatures := []\<rparr>"

text \<open>\<open>Engine.update\<close>: the engine is a black box that leaves every body of every creature
  in some new state, \<open>mv r j\<close> for body \<open>j\<close> of creature \<open>r\<close>.\<close>

definition Engine_update :: "(ref \<Rightarrow> nat \<Rightarrow> Body) \<Rightarrow> store \<Rightarrow> store" where
  "Engine_update mv h = (\<lambda>r. (h r)\<lparr>bodies := map (mv r) [0..<length (bodies (h r))]\<rparr>)"

section \<open>The controller (SimulationController.ts, class SimulationController)\<close>

record SimulationController =
  heap :: store
  next_ref :: ref
  cfg_groundY :: real
  mainWorld :: World
  creatures :: "ref list"
  deadCreatures :: "real set"
  evolutionCount :: nat
  totalCreatures :: nat
  lifetime :: real
  generationSize :: nat
  top3HighScores :: "(real \<times> real) list"
  allCreatures :: "(real \<times> ref) list"

text \<open>The state the constructor leaves: the field initialisers, and the first run of each
  of the two loops, which finds no creature.\<close>

definition SimulationController_new :: "real \<Rightarrow> SimulationController" where
  "SimulationController_new gy =
     \<lparr>heap = (\<lambda>r. blank), next_ref = 0, cfg_groundY = gy, mainWorld = World_new,
      creatures = [], deadCreatures = {}, evolutionCount = 0, totalCreatures = 0,
      lifetime = 15000, generationSize = 50, top3HighScores = [], allCreatures = []\<rparr>"

text \<open>\<open>Body.setAngularVelocity(body, velocity)\<close> of matter-js, which is not part of the
  repository, by its documented effect.\<close>

definition Body_setAngularVelocity :: "Body \<Rightarrow> real \<Rightarrow> Body" where
  "Body_setAngularVelocity b v =
     b\<lparr>anglePrev := angle b - v, angularVelocity := v, angularSpeed := \<bar>v\<bar>\<rparr>"

text \<open>The body of the \<open>forEach\<close> in \<open>freezeCreature\<close>.\<close>

definition freeze_body :: "Body \<Rightarrow> Body" where
  "freeze_body b = Body_setAngularVelocity (b\<lparr>isStatic := True, velocity_x := 0, velocity_y := 0\<rparr>) 0"

definition freezeCreature :: "ref \<Rightarrow> SimulationController \<Rightarrow> SimulationController" where
  "freezeCreature r s =
     s\<lparr>deadCreatures := insert (cid (heap s r)) (deadCreatures s),
       heap := (heap s)(r := (heap s r)\<lparr>bodies := map freeze_body (bodies (heap s r))\<rparr>)\<rparr>"

text \<open>The snapshot \<open>top10\<close> of \<open>trickleAddCreature\<close>: a stable sort by descending \<open>maxX\<close>,
  cut to its first ten.\<close>

definition top10_snapshot :: "SimulationController \<Rightarrow> ref list" where
  "top10_snapshot s = take 10 (sort_key (\<lambda>c. - maxX (heap s c)) (creatures s))"

text \<open>\<open>nonTop10.reduce((a, b) => (a.bornAt < b.bornAt ? a : b))\<close> on \<open>a # rest\<close>.\<close>

definition reduce_oldest :: "store \<Rightarrow> ref \<Rightarrow> ref list \<Rightarrow> ref" where
  "reduce_oldest h a rest = foldl (\<lambda>a b. if bornAt (h a) < bornAt (h b) then a else b) a rest"

text \<open>The first half of \<open>trickleAddCreature\<close>: the cull.\<close>

definition cull :: "SimulationController \<Rightarrow> SimulationController" where
  "cull s =
     (let top10 = top10_snapshot s
      in if generationSize s \<le> length (creatures s) then
           (let nonTop10 = filter (\<lambda>c. c \<notin> set top10) (creatures s)
            in case nonTop10 of
                 [] \<Rightarrow> s
               | a # rest \<Rightarrow>
                   (let oldest = reduce_oldest (heap s) a rest
                    in s\<lparr>mainWorld := removeCreature (heap s) (cid (heap s oldest)) (mainWorld s),
                         creatures := filter (\<lambda>c. c \<noteq> oldest) (creatures s),
                         deadCreatures := deadCreatures s - {cid (heap s oldest)}\<rparr>))
         else s)"

text \<open>The second half: the new creature, at the next unused reference, and the counters.
  \<open>now\<close> is the reading of \<open>Date.now()\<close> that becomes \<open>bornAt\<close>.\<close>

definition spawn :: "rng \<Rightarrow> real \<Rightarrow> real \<Rightarrow> real \<Rightarrow> SimulationController \<Rightarrow> SimulationController" where
  "spawn rnd t0 t1 now s =
     (let creature = (createRandomCreature rnd (cfg_groundY s) t0 t1)\<lparr>bornAt := now\<rparr>;
          r = next_ref s;
          total = totalCreatures s + 1
      in s\<lparr>heap := (heap s)(r := creature),
           next_ref := r + 1,
           creatures := creatures s @ [r],
           mainWorld := addCreature (cid creature) r (mainWorld s),
           evolutionCount := (if total mod 50 = 0 then evolutionCount s + 1 else evolutionCount s),
           totalCreatures := (if total mod 50 = 0 then 0 else total)\<rparr>)"

definition trickleAddCreature ::
  "rng \<Rightarrow> real \<Rightarrow> real \<Rightarrow> real \<Rightarrow> SimulationController \<Rightarrow> SimulationController" where
  "trickleAddCreature rnd t0 t1 now s = spawn rnd t0 t1 now (cull s)"

text \<open>\<open>updateTop3HighScores\<close> and \<open>getTop3HighScores\<close>; an entry is \<open>(id, distance)\<close>, a
  ranked entry \<open>(id, distance, rank)\<close>.\<close>

definition updateTop3HighScores :: "SimulationController \<Rightarrow> SimulationController" where
  "updateTop3HighScores s =
     (let byId = foldl (\<lambda>byId (k, c). AList.update (cid (heap s c)) (maxX (heap s c)) byId)
                   [] (allCreatures s)
      in s\<lparr>top3HighScores := take 3 (sort_key (\<lambda>(i, distance). - distance) byId)\<rparr>)"

definition getTop3HighScores :: "SimulationController \<Rightarrow> (real \<times> real \<times> nat) list" where
  "getTop3HighScores s =
     map (\<lambda>(i, (ident, distance)). (ident, distance, i + 1)) (enumerate 0 (top3HighScores s))"

text \<open>One run of \<open>loop\<close> in \<open>startMainLoop\<close>, at the reading \<open>now\<close> of \<open>Date.now()\<close>.\<close>

definition tick_creature :: "real \<Rightarrow> SimulationController \<Rightarrow> ref \<Rightarrow> SimulationController" where
  "tick_creature now s c =
     (if lifetime s < now - bornAt (heap s c) then freezeCreature c s
      else s\<lparr>heap := (heap s)(c := Creature_update 16 (cfg_groundY s) (heap s c))\<rparr>)"

definition mainLoop :: "real \<Rightarrow> SimulationController \<Rightarrow> SimulationController" where
  "mainLoop now s = updateTop3HighScores (foldl (tick_creature now) s (creatures s))"

text \<open>One run of the world's update loop: the engine moves the bodies, then the world
  does its bookkeeping.\<close>

definition worldLoop :: "(ref \<Rightarrow> nat \<Rightarrow> Body) \<Rightarrow> SimulationController \<Rightarrow> SimulationController" where
  "worldLoop mv s =
     (let h = Engine_update mv (heap s)
      in s\<lparr>heap := h, mainWorld := World_update h (mainWorld s)\<rparr>)"

text \<open>\<open>SimulationController.cleanup()\<close>, the one public method that changes the state; it
  stops neither the interval timer nor the two loops.\<close>

definition cleanup :: "SimulationController \<Rightarrow> SimulationController" where
  "cleanup s = s\<lparr>mainWorld := World_cleanup (mainWorld s)\<rparr>"

text \<open>The callbacks the constructor schedules and the call of \<open>cleanup\<close>, and what a run of
  the simulation is: any sequence of them from the state the constructor leaves.\<close>

datatype Event =
  Trickle rng real real real
| Frame real
| WorldFrame "ref \<Rightarrow> nat \<Rightarrow> Body"
| Cleanup

fun step :: "SimulationController \<Rightarrow> Event \<Rightarrow> SimulationController" where
  "step s (Trickle rnd t0 t1 now) = trickleAddCreature rnd t0 t1 now s"
| "step s (Frame now) = mainLoop now s"
| "step s (WorldFrame mv) = worldLoop mv s"
| "step s Cleanup = cleanup s"

definition run :: "real \<Rightarrow> Event list \<Rightarrow> SimulationController" where
  "run gy evs = foldl step (SimulationController_new gy) evs"

section \<open>Invariants and auxiliary notions\<close>

text \<open>The \<open>j\<close>-th ring muscle, as the loop builds it when it starts at \<open>i\<close> with \<open>k\<close>
  draws made.\<close>

definition ring_muscle :: "rng \<Rightarrow> Body list \<Rightarrow> nat \<Rightarrow> nat \<Rightarrow> nat \<Rightarrow> nat \<Rightarrow> Muscle" where
  "ring_muscle rnd bs count i k j =
     Muscle_new j ((j + 1) mod count)
       (ring_config rnd (k + 4 * (j - i)) (getDistance (bs ! j) (bs ! ((j + 1) mod count))))"

text \<open>The \<open>j\<close>-th body, as the loop places it when it starts at \<open>i\<close> with \<open>k\<close> draws made.\<close>

definition placed_body :: "rng \<Rightarrow> real \<Rightarrow> nat \<Rightarrow> real \<Rightarrow> nat \<Rightarrow> nat \<Rightarrow> nat \<Rightarrow> Body" where
  "placed_body rnd gy count radius i k j =
     PhysicsBody_new
       (- 100 + cos ((real j / real count) * pi * 2) * radius
          + (Math_random rnd (k + 2 * (j - i)) - 1 / 2) * 20)
       ((gy - 100) + sin ((real j / real count) * pi * 2) * radius
          + (Math_random rnd (k + 2 * (j - i) + 1) - 1 / 2) * 20)"

text \<open>The loop invariant of the repair: the connection map holds the degree of every
  body. And what it means that a list of muscles was added by the repair: each joins two
  different bodies that both had a degree below 2 when it was added.\<close>

definition tracks :: "nat \<Rightarrow> connectionMap \<Rightarrow> Muscle list \<Rightarrow> bool" where
  "tracks n cm ms = (\<forall>b<n. conn_get cm b = incident ms b)"

fun repairs :: "nat \<Rightarrow> Muscle list \<Rightarrow> Muscle list \<Rightarrow> bool" where
  "repairs n ms [] = True"
| "repairs n ms (m # r) =
     (bodyA (constraint m) < n \<and> bodyB (constraint m) < n \<and>
      bodyA (constraint m) \<noteq> bodyB (constraint m) \<and>
      incident ms (bodyA (constraint m)) < 2 \<and> incident ms (bodyB (constraint m)) < 2 \<and>
      repairs n (ms @ [m]) r)"

text \<open>What the \<open>while\<close> loop for one body establishes.\<close>

definition settled :: "nat \<Rightarrow> connectionMap \<Rightarrow> nat \<Rightarrow> bool" where
  "settled n cm body = (2 \<le> conn_get cm body \<or> (\<forall>t<n. t \<noteq> body \<longrightarrow> 2 \<le> conn_get cm t))"


section \<open>Example inputs\<close>

text \<open>Concrete inputs at which the theorems below are instantiated: a random source whose
  every draw is \<open>1/2\<close>, a periodic muscle of period 100 and one with no configured period, and
  a controller that holds one moving creature.\<close>

definition rnd_half :: rng where
  "rnd_half = (\<lambda>k. Draw (1 / 2))"

definition example_muscle :: Muscle where
  "example_muscle =
     Muscle_new 0 1 \<lparr>restLength = 20, stiffness = 1 / 2, activationType = Periodic,
                      period = Some 100, extensionFactor = None\<rparr>"

definition default_muscle :: Muscle where
  "default_muscle =
     Muscle_new 0 1 \<lparr>restLength = 20, stiffness = 1 / 2, activationType = Periodic,
                      period = None, extensionFactor = None\<rparr>"

definition moving_body :: Body where
  "moving_body =
     \<lparr>position_x = 40, position_y = 250, velocity_x = 3, velocity_y = - 2,
      angle = 1, anglePrev = 1 / 2, angularVelocity = 1 / 2, angularSpeed = 1 / 2, isStatic = False\<rparr>"

definition example_controller :: SimulationController where
  "example_controller =
     (SimulationController_new 300)
       \<lparr>heap := (\<lambda>r. blank)(0 := \<lparr>bodies = [moving_body, PhysicsBody_new 10 20], muscles = [example_muscle],
                                  bornAt = 5, maxX = 40, cid = 7\<rparr>),
        next_ref := 1, creatures := [0]\<rparr>"

text \<open>A run of one trickle step and one frame.\<close>

definition one_creature_run :: SimulationController where
  "one_creature_run = run 300 [Trickle rnd_half 1000 1000 1000, Frame 1016]"


text \<open>The creature generated from the draws \<open>rnd_half\<close>, four bodies with no muscle yet,
  and three bodies of which two are joined twice.\<close>

definition half_creature :: Creature where
  "half_creature = createRandomCreature rnd_half 300 1000 1000"

definition square_bodies :: "Body list" where
  "square_bodies = [PhysicsBody_new 0 0, PhysicsBody_new 3 0, PhysicsBody_new 3 4, PhysicsBody_new 0 4]"

definition doubled_pair :: "Muscle list" where
  "doubled_pair = [example_muscle, example_muscle]"





lemma Math_random_rnd_half: "Math_random rnd_half k = 1 / 2"
  by (simp add: Math_random_def rnd_half_def Draw_inverse)

section \<open>Properties of Muscle and Creature\<close>

lemma foldl_max_ge: "(x::real) \<le> foldl max x xs"
proof (induction xs arbitrary: x)
  case Nil
  show ?case by simp
next
  case (Cons y ys)
  have "x \<le> max x y" by simp
  also have "\<dots> \<le> foldl max (max x y) ys" by (rule Cons.IH)
  finally show ?case by simp
qed

lemma Creature_update_maxX_ge: "maxX c \<le> maxX (Creature_update delta groundY c)"
  by (simp add: Creature_update_def Math_max1_def foldl_max_ge)

lemma lifetime_maxX_ge:
  "maxX c \<le> maxX (foldl (\<lambda>c (delta, groundY, bs). Creature_update delta groundY (c\<lparr>bodies := bs\<rparr>)) c steps)"
proof (induction steps arbitrary: c)
  case Nil
  show ?case by simp
next
  case (Cons st steps)
  obtain delta groundY bs where st: "st = (delta, groundY, bs)" by (cases st)
  have "maxX c = maxX (c\<lparr>bodies := bs\<rparr>)" by simp
  also have "\<dots> \<le> maxX (Creature_update delta groundY (c\<lparr>bodies := bs\<rparr>))"
    by (rule Creature_update_maxX_ge)
  also have "\<dots> \<le> maxX (foldl (\<lambda>c (delta, groundY, bs). Creature_update delta groundY (c\<lparr>bodies := bs\<rparr>))
      (Creature_update delta groundY (c\<lparr>bodies := bs\<rparr>)) steps)"
    by (rule Cons.IH)
  finally show ?case by (simp add: st)
qed

text \<open>
  Claim C5. A call of \<open>Creature.update\<close> never lowers \<open>maxX\<close>, whatever the creature, the
  delta and the ground line are; and so \<open>maxX\<close> is non-decreasing along any sequence of
  updates, also when the physics engine moves the bodies (to any positions \<open>bs\<close>) between
  one update and the next.
\<close>

theorem C5_maxX_non_decreasing:
  "maxX c \<le> maxX (Creature_update delta groundY c) \<and>
   maxX c \<le> maxX (foldl (\<lambda>c (delta, groundY, bs). Creature_update delta groundY (c\<lparr>bodies := bs\<rparr>)) c steps)"
  using Creature_update_maxX_ge lifetime_maxX_ge by blast

theorem C5_maxX_witness:
  "maxX (heap example_controller 0) = 40 \<and>
   maxX (Creature_update 16 300 ((heap example_controller 0)\<lparr>bodies := [PhysicsBody_new 55 20]\<rparr>)) = 55 \<and>
   maxX (Creature_update 16 300 ((heap example_controller 0)\<lparr>bodies := [PhysicsBody_new 30 20]\<rparr>)) = 40"
  using C5_maxX_non_decreasing [of "heap example_controller 0" 16 300 "[]"]
  by (simp add: example_controller_def Creature_update_def Math_max1_def PhysicsBody_new_def)

subsection \<open>The periodic muscle\<close>

lemma periodic_tick_below:
  assumes "activationType (config m) = Periodic"
    and "\<not> period_or_default (config m) \<le> timer m + delta"
  shows "timer (Muscle_update bs delta g m) = timer m + delta"
    and "active (Muscle_update bs delta g m) = active m"
    and "config (Muscle_update bs delta g m) = config m"
  using assms by (simp_all add: Muscle_update_def activate_def Let_def)

lemma periodic_tick_reached:
  assumes "activationType (config m) = Periodic"
    and "period_or_default (config m) \<le> timer m + delta"
  shows "timer (Muscle_update bs delta g m) = 0"
    and "active (Muscle_update bs delta g m) = (\<not> active m)"
    and "config (Muscle_update bs delta g m) = config m"
  using assms by (simp_all add: Muscle_update_def activate_def Let_def)

lemma periodic_scenario:
  assumes P: "activationType (config m) = Periodic"
    and per: "period (config m) = Some 100"
    and t0: "timer m = 0" and a0: "\<not> active m"
  shows "map (\<lambda>k. active (((Muscle_update bs 16 g) ^^ k) m)) [1, 2, 3, 4, 5, 6, 7, 8, 9, 10]
           = [False, False, False, False, False, False, True, True, True, True]
       \<and> map (\<lambda>k. timer (((Muscle_update bs 16 g) ^^ k) m)) [1, 2, 3, 4, 5, 6, 7, 8, 9, 10]
           = [16, 32, 48, 64, 80, 96, 0, 16, 32, 48]"
proof -
  define U where "U = Muscle_update bs 16 g"
  have below: "timer (U x) = t + 16 \<and> active (U x) = active x \<and>
               activationType (config (U x)) = Periodic \<and> period (config (U x)) = Some 100"
    if "activationType (config x) = Periodic" "period (config x) = Some 100"
       "timer x = t" "t + 16 < 100" for x t
    using that periodic_tick_below [of x 16 bs g]
    by (simp add: U_def period_or_default_def)
  have reached: "timer (U x) = 0 \<and> active (U x) = (\<not> active x) \<and>
               activationType (config (U x)) = Periodic \<and> period (config (U x)) = Some 100"
    if "activationType (config x) = Periodic" "period (config x) = Some 100"
       "timer x = t" "100 \<le> t + 16" for x t
    using that periodic_tick_reached [of x 16 bs g]
    by (simp add: U_def period_or_default_def)
  have s1: "timer (U m) = 16 \<and> active (U m) = False \<and>
      activationType (config (U m)) = Periodic \<and> period (config (U m)) = Some 100"
    using below [OF P per t0] a0 by simp
  have s2: "timer ((U ^^ 2) m) = 32 \<and> active ((U ^^ 2) m) = False \<and>
      activationType (config ((U ^^ 2) m)) = Periodic \<and> period (config ((U ^^ 2) m)) = Some 100"
    using below [of "U m" 16] s1 by (simp add: numeral_2_eq_2)
  have s3: "timer ((U ^^ 3) m) = 48 \<and> active ((U ^^ 3) m) = False \<and>
      activationType (config ((U ^^ 3) m)) = Periodic \<and> period (config ((U ^^ 3) m)) = Some 100"
    using below [of "(U ^^ 2) m" 32] s2 by (simp add: eval_nat_numeral)
  have s4: "timer ((U ^^ 4) m) = 64 \<and> active ((U ^^ 4) m) = False \<and>
      activationType (config ((U ^^ 4) m)) = Periodic \<and> period (config ((U ^^ 4) m)) = Some 100"
    using below [of "(U ^^ 3) m" 48] s3 by (simp add: eval_nat_numeral)
  have s5: "timer ((U ^^ 5) m) = 80 \<and> active ((U ^^ 5) m) = False \<and>
      activationType (config ((U ^^ 5) m)) = Periodic \<and> period (config ((U ^^ 5) m)) = Some 100"
    using below [of "(U ^^ 4) m" 64] s4 by (simp add: eval_nat_numeral)
  have s6: "timer ((U ^^ 6) m) = 96 \<and> active ((U ^^ 6) m) = False \<and>
      activationType (config ((U ^^ 6) m)) = Periodic \<and> period (config ((U ^^ 6) m)) = Some 100"
    using below [of "(U ^^ 5) m" 80] s5 by (simp add: eval_nat_numeral)
  have s7: "timer ((U ^^ 7) m) = 0 \<and> active ((U ^^ 7) m) = True \<and>
      activationType (config ((U ^^ 7) m)) = Periodic \<and> period (config ((U ^^ 7) m)) = Some 100"
    using reached [of "(U ^^ 6) m" 96] s6 by (simp add: eval_nat_numeral)
  have s8: "timer ((U ^^ 8) m) = 16 \<and> active ((U ^^ 8) m) = True \<and>
      activationType (config ((U ^^ 8) m)) = Periodic \<and> period (config ((U ^^ 8) m)) = Some 100"
    using below [of "(U ^^ 7) m" 0] s7 by (simp add: eval_nat_numeral)
  have s9: "timer ((U ^^ 9) m) = 32 \<and> active ((U ^^ 9) m) = True \<and>
      activationType (config ((U ^^ 9) m)) = Periodic \<and> period (config ((U ^^ 9) m)) = Some 100"
    using below [of "(U ^^ 8) m" 16] s8 by (simp add: eval_nat_numeral)
  have s10: "timer ((U ^^ 10) m) = 48 \<and> active ((U ^^ 10) m) = True \<and>
      activationType (config ((U ^^ 10) m)) = Periodic \<and> period (config ((U ^^ 10) m)) = Some 100"
    using below [of "(U ^^ 9) m" 32] s9 by (simp add: eval_nat_numeral)
  show ?thesis
    unfolding U_def [symmetric]
    using s1 s2 s3 s4 s5 s6 s7 s8 s9 s10 by simp
qed

text \<open>
  Claim C6. An update of a periodic muscle adds \<open>delta\<close> to the timer. When the muscle is
  configured with the period \<open>p\<close>, it flips \<open>active\<close> and its timer is 0 again exactly when
  the sum has reached \<open>p\<close>, and otherwise \<open>active\<close> stays and the timer keeps the sum; when
  no period is configured the same holds with 1000 for \<open>p\<close>. A fresh muscle of period 100
  under ten updates of \<open>delta = 16\<close> is inactive after each of the updates 1 to 6 and
  active after each of the updates 7 to 10: it toggles once, at the seventh update,
  where the timer has reached 112 and is reset.
\<close>

theorem C6_periodic_muscle:
  assumes "activationType (config m) = Periodic"
  shows "(\<forall>p. period (config m) = Some p \<longrightarrow>
            (if p \<le> timer m + delta
             then active (Muscle_update bs delta g m) = (\<not> active m) \<and>
                  timer (Muscle_update bs delta g m) = 0
             else active (Muscle_update bs delta g m) = active m \<and>
                  timer (Muscle_update bs delta g m) = timer m + delta)) \<and>
         (period (config m) = None \<longrightarrow>
            (if 1000 \<le> timer m + delta
             then active (Muscle_update bs delta g m) = (\<not> active m) \<and>
                  timer (Muscle_update bs delta g m) = 0
             else active (Muscle_update bs delta g m) = active m \<and>
                  timer (Muscle_update bs delta g m) = timer m + delta)) \<and>
         (period (config m) = Some 100 \<and> timer m = 0 \<and> \<not> active m \<longrightarrow>
            map (\<lambda>k. active (((Muscle_update bs 16 g) ^^ k) m)) [1, 2, 3, 4, 5, 6, 7, 8, 9, 10]
              = [False, False, False, False, False, False, True, True, True, True] \<and>
            map (\<lambda>k. timer (((Muscle_update bs 16 g) ^^ k) m)) [1, 2, 3, 4, 5, 6, 7, 8, 9, 10]
              = [16, 32, 48, 64, 80, 96, 0, 16, 32, 48])"
proof -
  have a: "if p \<le> timer m + delta
             then active (Muscle_update bs delta g m) = (\<not> active m) \<and>
                  timer (Muscle_update bs delta g m) = 0
             else active (Muscle_update bs delta g m) = active m \<and>
                  timer (Muscle_update bs delta g m) = timer m + delta"
    if "period_or_default (config m) = p" for p
    using that assms periodic_tick_below [of m delta bs g] periodic_tick_reached [of m delta bs g]
    by simp
  have some: "period_or_default (config m) = p" if "period (config m) = Some p" for p
    using that by (simp add: period_or_default_def)
  have none: "period_or_default (config m) = 1000" if "period (config m) = None"
    using that by (simp add: period_or_default_def)
  have c: "period (config m) = Some 100 \<and> timer m = 0 \<and> \<not> active m \<longrightarrow>
            map (\<lambda>k. active (((Muscle_update bs 16 g) ^^ k) m)) [1, 2, 3, 4, 5, 6, 7, 8, 9, 10]
              = [False, False, False, False, False, False, True, True, True, True] \<and>
            map (\<lambda>k. timer (((Muscle_update bs 16 g) ^^ k) m)) [1, 2, 3, 4, 5, 6, 7, 8, 9, 10]
              = [16, 32, 48, 64, 80, 96, 0, 16, 32, 48]"
    using assms periodic_scenario [of m bs g] by simp
  show ?thesis
    using a [OF some] a [OF none] c by blast
qed

theorem C6_periodic_muscle_witness:
  "activationType (config example_muscle) = Periodic \<and>
   period (config example_muscle) = Some 100 \<and> timer example_muscle = 0 \<and> \<not> active example_muscle \<and>
   timer (Muscle_update [] 16 300 example_muscle) = 16 \<and>
   \<not> active (Muscle_update [] 16 300 example_muscle) \<and>
   timer (Muscle_update [] 100 300 example_muscle) = 0 \<and>
   active (Muscle_update [] 100 300 example_muscle) \<and>
   period (config default_muscle) = None \<and>
   timer (Muscle_update [] 999 300 default_muscle) = 999 \<and>
   \<not> active (Muscle_update [] 999 300 default_muscle) \<and>
   timer (Muscle_update [] 1000 300 default_muscle) = 0 \<and>
   active (Muscle_update [] 1000 300 default_muscle) \<and>
   map (\<lambda>k. active (((Muscle_update [] 16 300) ^^ k) example_muscle)) [1, 2, 3, 4, 5, 6, 7, 8, 9, 10]
     = [False, False, False, False, False, False, True, True, True, True] \<and>
   map (\<lambda>k. timer (((Muscle_update [] 16 300) ^^ k) example_muscle)) [1, 2, 3, 4, 5, 6, 7, 8, 9, 10]
     = [16, 32, 48, 64, 80, 96, 0, 16, 32, 48]"
proof -
  have f: "activationType (config example_muscle) = Periodic"
    "period (config example_muscle) = Some 100" "timer example_muscle = 0" "\<not> active example_muscle"
    by (simp_all add: example_muscle_def Muscle_new_def)
  have d: "activationType (config default_muscle) = Periodic"
    "period (config default_muscle) = None" "timer default_muscle = 0" "\<not> active default_muscle"
    by (simp_all add: default_muscle_def Muscle_new_def)
  show ?thesis
    using f d C6_periodic_muscle [OF f(1), of 16 "[]" 300] C6_periodic_muscle [OF f(1), of 100 "[]" 300]
      C6_periodic_muscle [OF d(1), of 999 "[]" 300] C6_periodic_muscle [OF d(1), of 1000 "[]" 300]
    by simp
qed

subsection \<open>Freezing\<close>

lemma freeze_body_idem: "freeze_body (freeze_body b) = freeze_body b"
  by (simp add: freeze_body_def Body_setAngularVelocity_def)

lemma freeze_body_comp: "freeze_body \<circ> freeze_body = freeze_body"
  by (rule ext) (simp add: freeze_body_idem)

lemma freeze_body_fields:
  "isStatic (freeze_body b) \<and> velocity_x (freeze_body b) = 0 \<and> velocity_y (freeze_body b) = 0 \<and>
   angularVelocity (freeze_body b) = 0 \<and>
   position_x (freeze_body b) = position_x b \<and> position_y (freeze_body b) = position_y b"
  by (simp add: freeze_body_def Body_setAngularVelocity_def)

lemma freezeCreature_idem: "freezeCreature r (freezeCreature r s) = freezeCreature r s"
  by (simp add: freezeCreature_def freeze_body_comp)

text \<open>
  Claim C10. After \<open>freezeCreature\<close> every body of the creature is static, with velocity
  \<open>(0, 0)\<close> and angular velocity 0, and the creature's id is in \<open>deadCreatures\<close>; a second
  call on the same creature returns the very state the first call left: the controller,
  the store and with it every body of the creature are unchanged.
\<close>

theorem C10_freeze_idempotent:
  "(\<forall>b \<in> set (bodies (heap (freezeCreature r s) r)).
      isStatic b \<and> velocity_x b = 0 \<and> velocity_y b = 0 \<and> angularVelocity b = 0) \<and>
   length (bodies (heap (freezeCreature r s) r)) = length (bodies (heap s r)) \<and>
   cid (heap s r) \<in> deadCreatures (freezeCreature r s) \<and>
   freezeCreature r (freezeCreature r s) = freezeCreature r s"
proof (intro conjI)
  show "\<forall>b \<in> set (bodies (heap (freezeCreature r s) r)).
      isStatic b \<and> velocity_x b = 0 \<and> velocity_y b = 0 \<and> angularVelocity b = 0"
    using freeze_body_fields by (auto simp: freezeCreature_def)
  show "length (bodies (heap (freezeCreature r s) r)) = length (bodies (heap s r))"
    by (simp add: freezeCreature_def)
  show "cid (heap s r) \<in> deadCreatures (freezeCreature r s)"
    by (simp add: freezeCreature_def)
  show "freezeCreature r (freezeCreature r s) = freezeCreature r s"
    by (rule freezeCreature_idem)
qed

theorem C10_freeze_witness:
  "map isStatic (bodies (heap (freezeCreature 0 example_controller) 0)) = [True, True] \<and>
   map velocity_x (bodies (heap (freezeCreature 0 example_controller) 0)) = [0, 0] \<and>
   map velocity_y (bodies (heap (freezeCreature 0 example_controller) 0)) = [0, 0] \<and>
   map angularVelocity (bodies (heap (freezeCreature 0 example_controller) 0)) = [0, 0] \<and>
   deadCreatures (freezeCreature 0 example_controller) = {7} \<and>
   freezeCreature 0 (freezeCreature 0 example_controller) = freezeCreature 0 example_controller"
  using C10_freeze_idempotent [of 0 example_controller]
  by (simp add: freezeCreature_def example_controller_def SimulationController_new_def
      freeze_body_def Body_setAngularVelocity_def moving_body_def PhysicsBody_new_def)

subsection \<open>What the callbacks leave unchanged\<close>

lemma freezeCreature_keeps [simp]:
  "allCreatures (freezeCreature r s) = allCreatures s"
  "top3HighScores (freezeCreature r s) = top3HighScores s"
  "creatures (freezeCreature r s) = creatures s"
  "next_ref (freezeCreature r s) = next_ref s"
  "generationSize (freezeCreature r s) = generationSize s"
  "mainWorld (freezeCreature r s) = mainWorld s"
  "lifetime (freezeCreature r s) = lifetime s"
  "cfg_groundY (freezeCreature r s) = cfg_groundY s"
  by (simp_all add: freezeCreature_def)

lemma tick_creature_keeps [simp]:
  "allCreatures (tick_creature now s c) = allCreatures s"
  "top3HighScores (tick_creature now s c) = top3HighScores s"
  "creatures (tick_creature now s c) = creatures s"
  "next_ref (tick_creature now s c) = next_ref s"
  "generationSize (tick_creature now s c) = generationSize s"
  "mainWorld (tick_creature now s c) = mainWorld s"
  by (simp_all add: tick_creature_def)

lemma foldl_tick_keeps [simp]:
  "allCreatures (foldl (tick_creature now) s cs) = allCreatures s"
  "top3HighScores (foldl (tick_creature now) s cs) = top3HighScores s"
  "creatures (foldl (tick_creature now) s cs) = creatures s"
  "next_ref (foldl (tick_creature now) s cs) = next_ref s"
  "generationSize (foldl (tick_creature now) s cs) = generationSize s"
  "mainWorld (foldl (tick_creature now) s cs) = mainWorld s"
  by (induction cs arbitrary: s) simp_all

lemma updateTop3HighScores_keeps [simp]:
  "allCreatures (updateTop3HighScores s) = allCreatures s"
  "creatures (updateTop3HighScores s) = creatures s"
  "next_ref (updateTop3HighScores s) = next_ref s"
  "generationSize (updateTop3HighScores s) = generationSize s"
  "mainWorld (updateTop3HighScores s) = mainWorld s"
  "heap (updateTop3HighScores s) = heap s"
  by (simp_all add: updateTop3HighScores_def)

lemma mainLoop_keeps [simp]:
  "allCreatures (mainLoop now s) = allCreatures s"
  "creatures (mainLoop now s) = creatures s"
  "next_ref (mainLoop now s) = next_ref s"
  "generationSize (mainLoop now s) = generationSize s"
  "mainWorld (mainLoop now s) = mainWorld s"
  by (simp_all add: mainLoop_def)

lemma worldLoop_keeps [simp]:
  "allCreatures (worldLoop mv s) = allCreatures s"
  "top3HighScores (worldLoop mv s) = top3HighScores s"
  "creatures (worldLoop mv s) = creatures s"
  "next_ref (worldLoop mv s) = next_ref s"
  "generationSize (worldLoop mv s) = generationSize s"
  by (simp_all add: worldLoop_def Let_def)

lemma cleanup_keeps [simp]:
  "allCreatures (cleanup s) = allCreatures s"
  "top3HighScores (cleanup s) = top3HighScores s"
  "creatures (cleanup s) = creatures s"
  "next_ref (cleanup s) = next_ref s"
  "generationSize (cleanup s) = generationSize s"
  "creatureMaxDistances (mainWorld (cleanup s)) = creatureMaxDistances (mainWorld s)"
  by (simp_all add: cleanup_def World_cleanup_def)

lemma cull_keeps [simp]:
  "allCreatures (cull s) = allCreatures s"
  "top3HighScores (cull s) = top3HighScores s"
  "next_ref (cull s) = next_ref s"
  "generationSize (cull s) = generationSize s"
  "heap (cull s) = heap s"
  "cfg_groundY (cull s) = cfg_groundY s"
  by (simp_all add: cull_def Let_def split: list.split)

lemma spawn_keeps [simp]:
  "allCreatures (spawn rnd t0 t1 now s) = allCreatures s"
  "top3HighScores (spawn rnd t0 t1 now s) = top3HighScores s"
  "next_ref (spawn rnd t0 t1 now s) = next_ref s + 1"
  "generationSize (spawn rnd t0 t1 now s) = generationSize s"
  "creatures (spawn rnd t0 t1 now s) = creatures s @ [next_ref s]"
  by (simp_all add: spawn_def Let_def)

lemma trickleAddCreature_keeps [simp]:
  "allCreatures (trickleAddCreature rnd t0 t1 now s) = allCreatures s"
  "top3HighScores (trickleAddCreature rnd t0 t1 now s) = top3HighScores s"
  "next_ref (trickleAddCreature rnd t0 t1 now s) = next_ref s + 1"
  "generationSize (trickleAddCreature rnd t0 t1 now s) = generationSize s"
  "creatures (trickleAddCreature rnd t0 t1 now s) = creatures (cull s) @ [next_ref s]"
  by (simp_all add: trickleAddCreature_def)

lemma run_snoc: "run gy (evs @ [e]) = step (run gy evs) e"
  by (simp add: run_def)

lemma run_Nil: "run gy [] = SimulationController_new gy"
  by (simp add: run_def)

subsection \<open>The leaderboard\<close>

lemma updateTop3HighScores_empty:
  "allCreatures s = [] \<Longrightarrow> top3HighScores (updateTop3HighScores s) = []"
  by (simp add: updateTop3HighScores_def)

lemma allCreatures_run: "allCreatures (run gy evs) = []"
proof (induction evs rule: rev_induct)
  case Nil
  show ?case by (simp add: run_Nil SimulationController_new_def)
next
  case (snoc e evs)
  then show ?case by (cases e) (simp_all add: run_snoc)
qed

lemma top3HighScores_run: "top3HighScores (run gy evs) = []"
proof (induction evs rule: rev_induct)
  case Nil
  show ?case by (simp add: run_Nil SimulationController_new_def)
next
  case (snoc e evs)
  then show ?case
    by (cases e) (simp_all add: run_snoc mainLoop_def updateTop3HighScores_empty allCreatures_run)
qed

lemma createRandomCreature_fields:
  "maxX (createRandomCreature rnd gy t0 t1) = 0"
  "bornAt (createRandomCreature rnd gy t0 t1) = t0"
  "\<exists>k. cid (createRandomCreature rnd gy t0 t1) = t1 + Math_random rnd k"
  by (simp_all add: createRandomCreature_def Creature_new_def Let_def case_prod_beta) blast

lemma cid_createRandomCreature_half:
  "cid (createRandomCreature rnd_half gy t0 t1) = t1 + 1 / 2"
  using createRandomCreature_fields(3) [of rnd_half gy t0 t1]
  by (auto simp: Math_random_rnd_half)

text \<open>
  Claim C2. In every state a run of the simulation reaches, \<open>allCreatures\<close> is empty: no
  callback writes it. So the list \<open>getTop3HighScores\<close> returns is empty in every such
  state, and it is empty again after a refresh and after a whole frame, whatever creatures
  were spawned and however far the engine moved them.
\<close>

theorem C2_leaderboard_always_empty:
  "allCreatures (run gy evs) = [] \<and>
   getTop3HighScores (run gy evs) = [] \<and>
   getTop3HighScores (updateTop3HighScores (run gy evs)) = [] \<and>
   getTop3HighScores (mainLoop now (run gy evs)) = []"
  by (simp add: allCreatures_run top3HighScores_run getTop3HighScores_def mainLoop_def
      updateTop3HighScores_empty)

theorem C2_leaderboard_witness:
  "allCreatures one_creature_run = [] \<and> getTop3HighScores (mainLoop 1032 one_creature_run) = []"
  using C2_leaderboard_always_empty [of 300 "[Trickle rnd_half 1000 1000 1000, Frame 1016]" 1032]
  by (simp add: one_creature_run_def)

lemma cull_below_capacity: "length (creatures s) < generationSize s \<Longrightarrow> cull s = s"
  by (simp add: cull_def)

lemma heap_spawn:
  "heap (spawn rnd t0 t1 now s) =
     (heap s)(next_ref s := (createRandomCreature rnd (cfg_groundY s) t0 t1)\<lparr>bornAt := now\<rparr>)"
  by (simp add: spawn_def Let_def)

lemma cid_tick_creature [simp]: "cid (heap (tick_creature now s c) r) = cid (heap s r)"
  by (simp add: tick_creature_def freezeCreature_def Creature_update_def)

lemma cid_foldl_tick [simp]: "cid (heap (foldl (tick_creature now) s cs) r) = cid (heap s r)"
  by (induction cs arbitrary: s) simp_all

lemma cid_mainLoop [simp]: "cid (heap (mainLoop now s) r) = cid (heap s r)"
  by (simp add: mainLoop_def)

lemma cull_new_controller: "cull (SimulationController_new gy) = SimulationController_new gy"
  by (rule cull_below_capacity) (simp add: SimulationController_new_def)

lemma one_creature_run_creatures: "creatures one_creature_run = [0]"
  by (simp add: one_creature_run_def run_def cull_new_controller)
    (simp add: SimulationController_new_def)

lemma one_creature_run_cid: "cid (heap one_creature_run 0) = 2001 / 2"
  by (simp add: one_creature_run_def run_def trickleAddCreature_def cull_new_controller heap_spawn)
    (simp add: SimulationController_new_def cid_createRandomCreature_half)

text \<open>
  Claim C1. After every leaderboard refresh the persistent best-distance map has an entry
  for every creature id that has ever been live, with the id's highest \<open>maxX\<close>, and the
  top 3 is recomputed from that map. The code does not do this: the refresh reads
  \<open>allCreatures\<close>, which nothing fills. After one trickle step and one frame the creature
  with id \<open>1000.5\<close> is live, and the map and the top 3 are empty.
\<close>

theorem C1_leaderboard_misses_live_creature:
  "creatures one_creature_run = [0] \<and>
   cid (heap one_creature_run 0) = 2001 / 2 \<and>
   allCreatures one_creature_run = [] \<and>
   top3HighScores one_creature_run = [] \<and>
   getTop3HighScores one_creature_run = []"
proof -
  have "allCreatures one_creature_run = []"
    unfolding one_creature_run_def by (rule allCreatures_run)
  moreover have "top3HighScores one_creature_run = []"
    unfolding one_creature_run_def by (rule top3HighScores_run)
  ultimately show ?thesis
    using one_creature_run_creatures one_creature_run_cid
    by (simp add: getTop3HighScores_def)
qed

subsection \<open>The cull\<close>


lemma length_top10_snapshot: "length (top10_snapshot s) \<le> 10"
  by (simp add: top10_snapshot_def)

lemma reduce_oldest_mem: "reduce_oldest h a rest \<in> set (a # rest)"
  unfolding reduce_oldest_def
proof (induction rest arbitrary: a)
  case Nil
  show ?case by simp
next
  case (Cons b rest)
  show ?case using Cons.IH [of a] Cons.IH [of b] by auto
qed

lemma reduce_oldest_le_start: "bornAt (h (reduce_oldest h a rest)) \<le> bornAt (h a)"
  unfolding reduce_oldest_def
proof (induction rest arbitrary: a)
  case Nil
  show ?case by simp
next
  case (Cons b rest)
  show ?case using Cons.IH [of a] Cons.IH [of b] by auto
qed

lemma reduce_oldest_min:
  assumes "c \<in> set (a # rest)"
  shows "bornAt (h (reduce_oldest h a rest)) \<le> bornAt (h c)"
  using assms
proof (induction rest arbitrary: a)
  case Nil
  then show ?case by (simp add: reduce_oldest_def)
next
  case (Cons b rest)
  let ?a' = "if bornAt (h a) < bornAt (h b) then a else b"
  have unf: "reduce_oldest h a (b # rest) = reduce_oldest h ?a' rest"
    by (simp add: reduce_oldest_def)
  have start: "bornAt (h ?a') \<le> bornAt (h a)" "bornAt (h ?a') \<le> bornAt (h b)"
    by auto
  from Cons.prems consider "c = a" | "c = b" | "c \<in> set rest" by auto
  then show ?case
  proof cases
    case 1
    then show ?thesis
      using reduce_oldest_le_start [of h ?a' rest] start(1) unfolding unf by (blast intro: order_trans)
  next
    case 2
    then show ?thesis
      using reduce_oldest_le_start [of h ?a' rest] start(2) unfolding unf by (blast intro: order_trans)
  next
    case 3
    then show ?thesis
      using Cons.IH [of ?a'] unfolding unf by simp
  qed
qed

text \<open>What the cull does to the live set, at capacity.\<close>

lemma cull_at_capacity:
  assumes "generationSize s \<le> length (creatures s)"
  shows "(set (creatures s) \<subseteq> set (top10_snapshot s) \<and> cull s = s) \<or>
         (\<exists>oldest. oldest \<in> set (creatures s) \<and> oldest \<notin> set (top10_snapshot s) \<and>
            (\<forall>c \<in> set (creatures s). c \<notin> set (top10_snapshot s) \<longrightarrow>
               bornAt (heap s oldest) \<le> bornAt (heap s c)) \<and>
            creatures (cull s) = filter (\<lambda>c. c \<noteq> oldest) (creatures s))"
proof (cases "filter (\<lambda>c. c \<notin> set (top10_snapshot s)) (creatures s)")
  case Nil
  then have "set (creatures s) \<subseteq> set (top10_snapshot s)"
    by (auto simp: filter_empty_conv)
  moreover have "cull s = s"
    using Nil assms by (simp add: cull_def)
  ultimately show ?thesis by simp
next
  case (Cons a rest)
  let ?o = "reduce_oldest (heap s) a rest"
  have mem: "?o \<in> set (filter (\<lambda>c. c \<notin> set (top10_snapshot s)) (creatures s))"
    using reduce_oldest_mem [of "heap s" a rest] Cons by simp
  have min: "bornAt (heap s ?o) \<le> bornAt (heap s c)"
    if "c \<in> set (creatures s)" "c \<notin> set (top10_snapshot s)" for c
  proof -
    have "c \<in> set (a # rest)" using that Cons [symmetric] by simp
    then show ?thesis by (rule reduce_oldest_min)
  qed
  have "creatures (cull s) = filter (\<lambda>c. c \<noteq> ?o) (creatures s)"
    using Cons assms by (simp add: cull_def Let_def)
  then show ?thesis
    using mem min by auto
qed

lemma cull_creatures_subset: "set (creatures (cull s)) \<subseteq> set (creatures s)"
  by (auto simp: cull_def Let_def split: list.split)








subsection \<open>The size of the population\<close>

lemma length_filter_neq_distinct:
  "distinct xs \<Longrightarrow> length (filter (\<lambda>c. c \<noteq> x) xs) = length xs - (if x \<in> set xs then 1 else 0)"
  by (induction xs) (auto dest: length_pos_if_in_set)

lemma no_room_in_top10:
  assumes d: "distinct (creatures s)" and sub: "set (creatures s) \<subseteq> set (top10_snapshot s)"
  shows "length (creatures s) \<le> 10"
proof -
  have "length (creatures s) = card (set (creatures s))"
    using d by (simp add: distinct_card)
  also have "\<dots> \<le> card (set (top10_snapshot s))"
    using sub by (intro card_mono) simp_all
  also have "\<dots> \<le> length (top10_snapshot s)"
    by (rule card_length)
  also have "\<dots> \<le> 10"
    by (rule length_top10_snapshot)
  finally show ?thesis .
qed

lemma cull_frees_a_slot:
  assumes d: "distinct (creatures s)" and g: "generationSize s = 50"
    and l: "length (creatures s) \<le> 50"
  shows "length (creatures (cull s)) < 50"
    and "length (creatures s) - 1 \<le> length (creatures (cull s))"
    and "distinct (creatures (cull s))"
proof -
  show "distinct (creatures (cull s))"
    using d by (auto simp: cull_def Let_def split: list.split)
  show "length (creatures s) - 1 \<le> length (creatures (cull s))"
    using d by (auto simp: cull_def Let_def length_filter_neq_distinct split: list.split)
  show "length (creatures (cull s)) < 50"
  proof (cases "generationSize s \<le> length (creatures s)")
    case False
    then show ?thesis using g by (simp add: cull_below_capacity)
  next
    case True
    from cull_at_capacity [OF True] show ?thesis
    proof (elim disjE conjE exE)
      assume "set (creatures s) \<subseteq> set (top10_snapshot s)"
      then have "length (creatures s) \<le> 10"
        using d by (rule no_room_in_top10 [rotated])
      then show ?thesis using True g by simp
    next
      fix oldest
      assume o: "oldest \<in> set (creatures s)"
        and c: "creatures (cull s) = filter (\<lambda>c. c \<noteq> oldest) (creatures s)"
      have "length (filter (\<lambda>c. c \<noteq> oldest) (creatures s)) < length (creatures s)"
        using o by (intro length_filter_less) simp_all
      then show ?thesis using c l by simp
    qed
  qed
qed

lemma population_invariant:
  "distinct (creatures (run gy evs)) \<and>
   (\<forall>c \<in> set (creatures (run gy evs)). c < next_ref (run gy evs)) \<and>
   generationSize (run gy evs) = 50 \<and>
   length (creatures (run gy evs)) \<le> 50"
proof (induction evs rule: rev_induct)
  case Nil
  show ?case by (simp add: run_Nil SimulationController_new_def)
next
  case (snoc e evs)
  let ?s = "run gy evs"
  from snoc have d: "distinct (creatures ?s)"
    and r: "\<forall>c \<in> set (creatures ?s). c < next_ref ?s"
    and g: "generationSize ?s = 50" and l: "length (creatures ?s) \<le> 50"
    by simp_all
  show ?case
  proof (cases e)
    case (Trickle rnd t0 t1 now)
    have fresh: "next_ref ?s \<notin> set (creatures (cull ?s))"
      using r cull_creatures_subset [of ?s] by auto
    have below: "\<forall>c \<in> set (creatures (cull ?s)). c < next_ref ?s + 1"
      using r cull_creatures_subset [of ?s] by (auto intro: less_SucI)
    show ?thesis
      using cull_frees_a_slot [OF d g l] fresh below g
      by (simp add: run_snoc Trickle less_Suc_eq)
  next
    case (Frame now)
    then show ?thesis using d r g l by (simp add: run_snoc)
  next
    case (WorldFrame mv)
    then show ?thesis using d r g l by (simp add: run_snoc)
  next
    case Cleanup
    then show ?thesis using d r g l by (simp add: run_snoc)
  qed
qed

text \<open>
  Claim C4. Along every run of the simulation from the empty population, whatever the
  trickle steps, frames and world updates are and however they interleave, at most 50
  creatures are live after each callback. In every state reached, the cull of a trickle
  step removes at most one creature and leaves fewer than 50 (at capacity the top-10
  snapshot cannot hold all 50 live creatures, so one is culled), and the step then adds
  exactly one.
\<close>

theorem C4_population_at_most_50:
  "length (creatures (run gy evs)) \<le> 50 \<and>
   length (creatures (cull (run gy evs))) < 50 \<and>
   length (creatures (run gy evs)) - 1 \<le> length (creatures (cull (run gy evs))) \<and>
   length (creatures (trickleAddCreature rnd t0 t1 now (run gy evs))) =
     length (creatures (cull (run gy evs))) + 1"
proof -
  have i: "distinct (creatures (run gy evs))" "generationSize (run gy evs) = 50"
    "length (creatures (run gy evs)) \<le> 50"
    using population_invariant [of gy evs] by simp_all
  show ?thesis
    using i(3) cull_frees_a_slot(1,2) [OF i] by simp
qed

theorem C4_population_witness:
  "length (creatures (run 300 [Trickle rnd_half 1000 1000 1000, Frame 1016])) = 1 \<and>
   length (creatures (trickleAddCreature rnd_half 1250 1250 1250
       (run 300 [Trickle rnd_half 1000 1000 1000, Frame 1016]))) = 2"
proof -
  let ?s = "run 300 [Trickle rnd_half 1000 1000 1000, Frame 1016]"
  have one: "creatures ?s = [0]"
    using one_creature_run_creatures by (simp add: one_creature_run_def)
  have "generationSize ?s = 50"
    using population_invariant [of 300 "[Trickle rnd_half 1000 1000 1000, Frame 1016]"] by simp
  then have "cull ?s = ?s"
    using one by (intro cull_below_capacity) simp
  then show ?thesis
    using one C4_population_at_most_50 [of 300 "[Trickle rnd_half 1000 1000 1000, Frame 1016]"
      rnd_half 1250 1250 1250]
    by simp
qed

subsection \<open>The loops of the generator\<close>

lemma length_place_bodies:
  "length (fst (place_bodies rnd gy count radius i bs k)) = length bs + (count - i)"
proof (induction rnd gy count radius i bs k rule: place_bodies.induct)
  case (1 rnd gy count radius i bs k)
  show ?case
  proof (cases "i < count")
    case True
    then show ?thesis
      using "1.IH" [OF True refl refl refl]
      by (subst place_bodies.simps) (simp add: Let_def)
  next
    case False
    then show ?thesis by (subst place_bodies.simps) simp
  qed
qed

lemma place_bodies_eq:
  "place_bodies rnd gy count radius i bs k =
     (bs @ map (placed_body rnd gy count radius i k) [i..<count], k + 2 * (count - i))"
proof (induction rnd gy count radius i bs k rule: place_bodies.induct)
  case (1 rnd gy count radius i bs k)
  show ?case
  proof (cases "i < count")
    case True
    have shift: "map (placed_body rnd gy count radius (i + 1) (k + 2)) [Suc i..<count] =
                 map (placed_body rnd gy count radius i k) [Suc i..<count]"
    proof (rule map_cong)
      fix j assume "j \<in> set [Suc i..<count]"
      then have eq: "k + 2 + 2 * (j - (i + 1)) = k + 2 * (j - i)" by auto
      show "placed_body rnd gy count radius (i + 1) (k + 2) j = placed_body rnd gy count radius i k j"
        by (simp only: placed_body_def eq)
    qed simp
    have "place_bodies rnd gy count radius i bs k =
          place_bodies rnd gy count radius (i + 1) (bs @ [placed_body rnd gy count radius i k i]) (k + 2)"
      using True by (subst place_bodies.simps) (simp add: Let_def placed_body_def)
    also have "\<dots> = ((bs @ [placed_body rnd gy count radius i k i]) @
                      map (placed_body rnd gy count radius (i + 1) (k + 2)) [i + 1..<count],
                    (k + 2) + 2 * (count - (i + 1)))"
      using "1.IH" [OF True refl refl refl] by (simp add: placed_body_def)
    also have "\<dots> = (bs @ map (placed_body rnd gy count radius i k) [i..<count], k + 2 * (count - i))"
      using True shift by (simp add: upt_conv_Cons)
    finally show ?thesis .
  next
    case False
    then show ?thesis by (subst place_bodies.simps) simp
  qed
qed

lemma bodies_createRandomCreature:
  "bodies (createRandomCreature rnd gy t0 t1) =
     map (placed_body rnd gy (4 + random_index rnd 0 8) (15 + Math_random rnd 1 * 30) 0 2)
       [0..<4 + random_index rnd 0 8]"
  by (simp add: createRandomCreature_def Creature_new_def Let_def case_prod_beta place_bodies_eq)

lemma ring_muscles_eq:
  "ring_muscles rnd bs count i ms k =
     (ms @ map (ring_muscle rnd bs count i k) [i..<count], k + 4 * (count - i))"
proof (induction rnd bs count i ms k rule: ring_muscles.induct)
  case (1 rnd bs count i ms k)
  show ?case
  proof (cases "i < count")
    case True
    have shift: "map (ring_muscle rnd bs count (i + 1) (k + 4)) [Suc i..<count] =
                 map (ring_muscle rnd bs count i k) [Suc i..<count]"
    proof (rule map_cong)
      fix j assume "j \<in> set [Suc i..<count]"
      then have eq: "k + 4 + 4 * (j - (i + 1)) = k + 4 * (j - i)" by auto
      show "ring_muscle rnd bs count (i + 1) (k + 4) j = ring_muscle rnd bs count i k j"
        by (simp only: ring_muscle_def eq)
    qed simp
    have "ring_muscles rnd bs count i ms k =
          ring_muscles rnd bs count (i + 1)
            (ms @ [Muscle_new i ((i + 1) mod count)
                    (ring_config rnd k (getDistance (bs ! i) (bs ! ((i + 1) mod count))))]) (k + 4)"
      using True by (subst ring_muscles.simps) (simp add: Let_def)
    also have "\<dots> = ((ms @ [ring_muscle rnd bs count i k i]) @
                      map (ring_muscle rnd bs count (i + 1) (k + 4)) [i + 1..<count],
                    (k + 4) + 4 * (count - (i + 1)))"
      using "1.IH" [OF True refl refl refl] by (simp add: ring_muscle_def)
    also have "\<dots> = (ms @ map (ring_muscle rnd bs count i k) [i..<count], k + 4 * (count - i))"
      using True shift by (simp add: upt_conv_Cons)
    finally show ?thesis .
  next
    case False
    then show ?thesis by (subst ring_muscles.simps) simp
  qed
qed

lemma cross_muscles_prefix:
  "\<exists>extra. fst (cross_muscles rnd bs count n i ms k) = ms @ extra \<and>
     (\<forall>m \<in> set extra. bodyA (constraint m) \<noteq> bodyB (constraint m))"
proof (induction rnd bs count n i ms k rule: cross_muscles.induct)
  case (1 rnd bs count n i ms k)
  show ?case
  proof (cases "i < n")
    case False
    then show ?thesis by (subst cross_muscles.simps) simp
  next
    case True
    show ?thesis
    proof (cases "random_index rnd k count \<noteq> random_index rnd (k + 1) count")
      case neq: True
      from "1.IH"(1) [OF True refl refl neq refl]
      obtain extra where "fst (cross_muscles rnd bs count n (i + 1)
          (ms @ [Muscle_new (random_index rnd k count) (random_index rnd (k + 1) count)
             (cross_config rnd (k + 2) (getDistance (bs ! random_index rnd k count)
                (bs ! random_index rnd (k + 1) count)))]) (k + 6)) =
          (ms @ [Muscle_new (random_index rnd k count) (random_index rnd (k + 1) count)
             (cross_config rnd (k + 2) (getDistance (bs ! random_index rnd k count)
                (bs ! random_index rnd (k + 1) count)))]) @ extra"
        and "\<forall>m \<in> set extra. bodyA (constraint m) \<noteq> bodyB (constraint m)"
        by blast
      then show ?thesis
        using True neq by (subst cross_muscles.simps) (simp add: Let_def Muscle_new_def)
    next
      case eq: False
      from "1.IH"(2) [OF True refl refl eq]
      obtain extra where "fst (cross_muscles rnd bs count n (i + 1) ms (k + 2)) = ms @ extra"
        and "\<forall>m \<in> set extra. bodyA (constraint m) \<noteq> bodyB (constraint m)"
        by blast
      then show ?thesis
        using True eq by (subst cross_muscles.simps) (simp add: Let_def)
    qed
  qed
qed


subsection \<open>Connectivity repair\<close>

lemma incident_snoc:
  "incident (ms @ [m]) b =
     incident ms b + (if bodyA (constraint m) = b \<or> bodyB (constraint m) = b then 1 else 0)"
  by (simp add: incident_def)

lemma incident_append_ge: "incident ms b \<le> incident (ms @ extra) b"
  by (simp add: incident_def)

lemma conn_get_upd: "conn_get (cm(a \<mapsto> v)) b = (if b = a then v else conn_get cm b)"
  by (simp add: conn_get_def)

lemma conn_get_count_muscle:
  assumes "b < n"
  shows "conn_get (count_muscle n cm m) b =
     conn_get cm b + (if bodyA (constraint m) = b then 1 else 0)
                   + (if bodyB (constraint m) = b then 1 else 0)"
  using assms by (auto simp: count_muscle_def Let_def conn_get_upd)

lemma tracks_count_muscle:
  assumes "tracks n cm ms" and "bodyA (constraint m) \<noteq> bodyB (constraint m)"
  shows "tracks n (count_muscle n cm m) (ms @ [m])"
  using assms by (auto simp: tracks_def conn_get_count_muscle incident_snoc)

lemma tracks_foldl_count:
  assumes "tracks n cm ms0" and "\<forall>m \<in> set ms. bodyA (constraint m) \<noteq> bodyB (constraint m)"
  shows "tracks n (foldl (count_muscle n) cm ms) (ms0 @ ms)"
  using assms
proof (induction ms arbitrary: cm ms0)
  case Nil
  then show ?case by simp
next
  case (Cons m ms)
  have "tracks n (count_muscle n cm m) (ms0 @ [m])"
    using Cons.prems by (intro tracks_count_muscle) simp_all
  then have "tracks n (foldl (count_muscle n) (count_muscle n cm m) ms) ((ms0 @ [m]) @ ms)"
    using Cons.prems by (intro Cons.IH) simp_all
  then show ?case by simp
qed

lemma conn_get_zeroed:
  "(\<forall>b. conn_get cm b = 0) \<Longrightarrow> conn_get (foldl (\<lambda>cm b. cm(b \<mapsto> 0)) cm xs) b = 0"
  by (induction xs arbitrary: cm) (simp_all add: conn_get_upd)

lemma tracks_initial:
  assumes "\<forall>m \<in> set ms. bodyA (constraint m) \<noteq> bodyB (constraint m)"
  shows "tracks n (initial_connections n ms) ms"
proof -
  have z: "\<forall>b. conn_get Map.empty b = 0"
    by (simp add: conn_get_def)
  have "tracks n (foldl (\<lambda>cm b. cm(b \<mapsto> 0)) Map.empty [0..<n]) []"
    by (simp add: tracks_def incident_def conn_get_zeroed [OF z])
  from tracks_foldl_count [OF this assms] show ?thesis
    by (simp add: initial_connections_def)
qed

lemma repairs_append:
  "repairs n ms (xs @ ys) = (repairs n ms xs \<and> repairs n (ms @ xs) ys)"
  by (induction xs arbitrary: ms) auto

lemma repairs_nth:
  assumes "repairs n ms added" and "j < length added"
  shows "bodyA (constraint (added ! j)) < n \<and> bodyB (constraint (added ! j)) < n \<and>
         bodyA (constraint (added ! j)) \<noteq> bodyB (constraint (added ! j)) \<and>
         incident (ms @ take j added) (bodyA (constraint (added ! j))) < 2 \<and>
         incident (ms @ take j added) (bodyB (constraint (added ! j))) < 2"
  using assms
proof (induction added arbitrary: ms j)
  case Nil
  then show ?case by simp
next
  case (Cons m r)
  show ?case
  proof (cases j)
    case 0
    then show ?thesis using Cons.prems by simp
  next
    case (Suc j')
    then have "repairs n (ms @ [m]) r" "j' < length r"
      using Cons.prems by simp_all
    from Cons.IH [OF this] show ?thesis
      by (simp add: Suc)
  qed
qed

lemma settled_mono:
  assumes "settled n cm body" and "\<forall>b. conn_get cm b \<le> conn_get cm' b"
  shows "settled n cm' body"
  using assms unfolding settled_def by (meson order_trans)

lemma connect_body_spec:
  assumes "tracks (length bs) cm ms" and "body < length bs"
  shows "\<exists>cm' added k'.
           connect_body rnd bs body (cm, ms, k) = (cm', ms @ added, k') \<and>
           tracks (length bs) cm' (ms @ added) \<and> repairs (length bs) ms added \<and>
           settled (length bs) cm' body \<and> (\<forall>b. conn_get cm b \<le> conn_get cm' b)"
  using assms
proof (induction rnd bs body "(cm, ms, k)" arbitrary: cm ms k rule: connect_body.induct)
  case (1 rnd bs body cm ms k)
  let ?n = "length bs"
  let ?pts = "filter (\<lambda>target. target \<noteq> body \<and> conn_get cm target < 2) [0..<?n]"
  show ?case
  proof (cases "conn_get cm body < 2")
    case False
    then have "connect_body rnd bs body (cm, ms, k) = (cm, ms @ [], k)"
      by (subst connect_body.simps) simp
    moreover have "settled ?n cm body" using False by (simp add: settled_def)
    ultimately show ?thesis using "1.prems" by force
  next
    case low: True
    show ?thesis
    proof (cases "?pts = []")
      case True
      then have "connect_body rnd bs body (cm, ms, k) = (cm, ms @ [], k)"
        using low by (subst connect_body.simps) (simp add: Let_def)
      moreover have "settled ?n cm body"
        using True by (auto simp: settled_def filter_empty_conv not_less)
      ultimately show ?thesis using "1.prems" by force
    next
      case False
      define target where "target = ?pts ! random_index rnd k (length ?pts)"
      define m where "m = Muscle_new body target
          (repair_config rnd (k + 1) (getDistance (bs ! body) (bs ! target)))"
      define cm1 where "cm1 = cm(body \<mapsto> conn_get cm body + 1)"
      define cm2 where "cm2 = cm1(target \<mapsto> conn_get cm1 target + 1)"
      have "random_index rnd k (length ?pts) < length ?pts"
        using False by (intro random_index_less) simp
      then have "target \<in> set ?pts" unfolding target_def by (rule nth_mem)
      then have tg: "target < ?n" "target \<noteq> body" "conn_get cm target < 2" by auto
      have unf: "connect_body rnd bs body (cm, ms, k) =
                 connect_body rnd bs body (cm2, ms @ [m], k + 5)"
        using low False
        by (subst connect_body.simps) (simp add: Let_def target_def m_def cm1_def cm2_def)
      have ends: "bodyA (constraint m) = body" "bodyB (constraint m) = target"
        by (simp_all add: m_def Muscle_new_def)
      have cm2: "conn_get cm2 b = conn_get cm b + (if b = body \<or> b = target then 1 else 0)" for b
        using tg(2) by (auto simp: cm2_def cm1_def conn_get_upd)
      have tr: "tracks ?n cm2 (ms @ [m])"
        using "1.prems"(1) by (auto simp: tracks_def cm2 incident_snoc ends)
      from "1.hyps" [OF low refl False target_def [symmetric, THEN sym] refl m_def cm1_def cm2_def tr "1.prems"(2)]
      obtain cm' added k' where
        r: "connect_body rnd bs body (cm2, ms @ [m], k + 5) = (cm', (ms @ [m]) @ added, k')"
          "tracks ?n cm' ((ms @ [m]) @ added)" "repairs ?n (ms @ [m]) added"
          "settled ?n cm' body" "\<forall>b. conn_get cm2 b \<le> conn_get cm' b"
        by blast
      have "repairs ?n ms (m # added)"
        using r(3) tg "1.prems" low by (simp add: ends tracks_def)
      moreover have "\<forall>b. conn_get cm b \<le> conn_get cm' b"
      proof
        fix b
        have "conn_get cm b \<le> conn_get cm2 b" by (simp add: cm2)
        also have "\<dots> \<le> conn_get cm' b" using r(5) by simp
        finally show "conn_get cm b \<le> conn_get cm' b" .
      qed
      ultimately show ?thesis
        using unf r(1,2,4) by (intro exI [of _ cm'] exI [of _ "m # added"] exI [of _ k']) simp
    qed
  qed
qed


lemma repair_all_spec:
  assumes "tracks (length bs) cm ms" and "\<forall>b \<in> set todo. b < length bs"
  shows "\<exists>cm' added k'.
           foldl (\<lambda>st body. connect_body rnd bs body st) (cm, ms, k) todo = (cm', ms @ added, k') \<and>
           tracks (length bs) cm' (ms @ added) \<and> repairs (length bs) ms added \<and>
           (\<forall>b \<in> set todo. settled (length bs) cm' b) \<and> (\<forall>b. conn_get cm b \<le> conn_get cm' b)"
  using assms
proof (induction todo arbitrary: cm ms k)
  case Nil
  have "foldl (\<lambda>st body. connect_body rnd bs body st) (cm, ms, k) [] = (cm, ms @ [], k)"
    by simp
  then show ?case using Nil.prems(1) by force
next
  case (Cons x todo)
  let ?n = "length bs"
  from connect_body_spec [of bs cm ms x rnd k] Cons.prems
  obtain cm1 added1 k1 where
    a: "connect_body rnd bs x (cm, ms, k) = (cm1, ms @ added1, k1)"
      "tracks ?n cm1 (ms @ added1)" "repairs ?n ms added1"
      "settled ?n cm1 x" "\<forall>b. conn_get cm b \<le> conn_get cm1 b"
    by auto
  from Cons.IH [OF a(2), of k1] Cons.prems(2)
  obtain cm' added2 k' where
    b: "foldl (\<lambda>st body. connect_body rnd bs body st) (cm1, ms @ added1, k1) todo =
          (cm', (ms @ added1) @ added2, k')"
      "tracks ?n cm' ((ms @ added1) @ added2)" "repairs ?n (ms @ added1) added2"
      "\<forall>b \<in> set todo. settled ?n cm' b" "\<forall>b. conn_get cm1 b \<le> conn_get cm' b"
    by auto
  have f: "foldl (\<lambda>st body. connect_body rnd bs body st) (cm, ms, k) (x # todo) =
           (cm', ms @ (added1 @ added2), k')"
    using a(1) b(1) by simp
  have t: "tracks ?n cm' (ms @ (added1 @ added2))"
    using b(2) by simp
  have r: "repairs ?n ms (added1 @ added2)"
    using a(3) b(3) by (simp add: repairs_append)
  have s: "\<forall>b \<in> set (x # todo). settled ?n cm' b"
    using settled_mono [OF a(4) b(5)] b(4) by simp
  have m: "\<forall>b. conn_get cm b \<le> conn_get cm' b"
    using a(5) b(5) by (meson order_trans)
  show ?case
    using f t r s m by blast
qed

lemma ensureMinimumConnections_spec:
  assumes "\<forall>m \<in> set ms. bodyA (constraint m) \<noteq> bodyB (constraint m)"
  shows "\<exists>cm' added.
           fst (ensureMinimumConnections rnd bs ms k) = ms @ added \<and>
           tracks (length bs) cm' (ms @ added) \<and> repairs (length bs) ms added \<and>
           (\<forall>b < length bs. settled (length bs) cm' b)"
proof -
  have t: "tracks (length bs) (initial_connections (length bs) ms) ms"
    using assms by (rule tracks_initial)
  from repair_all_spec [OF t, of "[0..<length bs]" rnd k]
  obtain cm' added k' where
    "foldl (\<lambda>st body. connect_body rnd bs body st) (initial_connections (length bs) ms, ms, k)
        [0..<length bs] = (cm', ms @ added, k')"
    "tracks (length bs) cm' (ms @ added)" "repairs (length bs) ms added"
    "\<forall>b \<in> set [0..<length bs]. settled (length bs) cm' b"
    by auto
  then show ?thesis
    by (intro exI [of _ cm'] exI [of _ added]) (simp add: ensureMinimumConnections_def)
qed

subsection \<open>The generated creature\<close>

lemma ring_muscle_ends:
  "bodyA (constraint (ring_muscle rnd bs count i k j)) = j"
  "bodyB (constraint (ring_muscle rnd bs count i k j)) = (j + 1) mod count"
  by (simp_all add: ring_muscle_def Muscle_new_def)

lemma ring_successor_neq:
  assumes "j < count" and "2 \<le> count"
  shows "j \<noteq> Suc j mod count"
proof (cases "Suc j < count")
  case True
  then have "Suc j mod count = Suc j" by (rule mod_less)
  then show ?thesis by simp
next
  case False
  then have "Suc j = count" using assms(1) by simp
  then have "Suc j mod count = 0" by simp
  then show ?thesis using \<open>Suc j = count\<close> assms(2) by simp
qed

lemma createRandomCreature_shape:
  "\<exists>k1 extra k3.
     length (bodies (createRandomCreature rnd gy t0 t1)) = 4 + random_index rnd 0 8 \<and>
     (\<forall>m \<in> set extra. bodyA (constraint m) \<noteq> bodyB (constraint m)) \<and>
     muscles (createRandomCreature rnd gy t0 t1) =
       fst (ensureMinimumConnections rnd (bodies (createRandomCreature rnd gy t0 t1))
         (map (ring_muscle rnd (bodies (createRandomCreature rnd gy t0 t1))
                 (4 + random_index rnd 0 8) 0 k1) [0..<4 + random_index rnd 0 8] @ extra) k3)"
proof -
  define count where "count = 4 + random_index rnd 0 8"
  define radius where "radius = 15 + Math_random rnd 1 * 30"
  define bs where "bs = fst (place_bodies rnd gy count radius 0 [] 2)"
  define k1 where "k1 = snd (place_bodies rnd gy count radius 0 [] 2)"
  define ring where "ring = map (ring_muscle rnd bs count 0 k1) [0..<count]"
  define k2 where "k2 = k1 + 4 * count"
  define n where "n = count div 2 + random_index rnd k2 2"
  define ms2 where "ms2 = fst (cross_muscles rnd bs count n 0 ring (k2 + 1))"
  define k3 where "k3 = snd (cross_muscles rnd bs count n 0 ring (k2 + 1))"
  have ring_eq: "ring_muscles rnd bs count 0 [] k1 = (ring, k2)"
    by (simp add: ring_muscles_eq ring_def k2_def)
  have bodies_eq: "bodies (createRandomCreature rnd gy t0 t1) = bs"
    by (simp add: createRandomCreature_def Creature_new_def Let_def case_prod_beta
        bs_def count_def radius_def)
  have "createRandomCreature rnd gy t0 t1 =
        (let (ms1, k2') = ring_muscles rnd bs count 0 [] k1;
             crossConnections = count div 2 + random_index rnd k2' 2;
             (ms2', k3') = cross_muscles rnd bs count crossConnections 0 ms1 (k2' + 1);
             (ms3, k4) = ensureMinimumConnections rnd bs ms2' k3'
         in Creature_new bs ms3 t0 t1 (Math_random rnd k4))"
    by (simp add: createRandomCreature_def Let_def case_prod_beta
        bs_def k1_def count_def radius_def)
  then have muscles_eq: "muscles (createRandomCreature rnd gy t0 t1) =
        fst (ensureMinimumConnections rnd bs ms2 k3)"
    by (simp add: ring_eq Let_def case_prod_beta Creature_new_def ms2_def k3_def n_def)
  have len: "length bs = count"
    by (simp add: bs_def length_place_bodies)
  from cross_muscles_prefix [of rnd bs count n 0 ring "k2 + 1"]
  obtain extra where e: "ms2 = ring @ extra"
    "\<forall>m \<in> set extra. bodyA (constraint m) \<noteq> bodyB (constraint m)"
    unfolding ms2_def by blast
  show ?thesis
    using len e muscles_eq unfolding bodies_eq ring_def count_def by blast
qed

lemma ring_has_no_loops:
  assumes "2 \<le> count"
  shows "\<forall>m \<in> set (map (ring_muscle rnd bs count i k) [0..<count]).
           bodyA (constraint m) \<noteq> bodyB (constraint m)"
  using assms ring_successor_neq [of _ count] by (auto simp: ring_muscle_ends)

text \<open>The muscles of a generated creature: the ring, then what the cross links and the
  repair appended.\<close>

lemma createRandomCreature_muscles:
  "\<exists>k1 rest.
     length (bodies (createRandomCreature rnd gy t0 t1)) = 4 + random_index rnd 0 8 \<and>
     muscles (createRandomCreature rnd gy t0 t1) =
       map (ring_muscle rnd (bodies (createRandomCreature rnd gy t0 t1))
              (4 + random_index rnd 0 8) 0 k1) [0..<4 + random_index rnd 0 8] @ rest"
proof -
  let ?c = "createRandomCreature rnd gy t0 t1"
  let ?count = "4 + random_index rnd 0 8"
  from createRandomCreature_shape [of rnd gy t0 t1]
  obtain k1 extra k3 where
    s: "length (bodies ?c) = ?count"
      "\<forall>m \<in> set extra. bodyA (constraint m) \<noteq> bodyB (constraint m)"
      "muscles ?c = fst (ensureMinimumConnections rnd (bodies ?c)
         (map (ring_muscle rnd (bodies ?c) ?count 0 k1) [0..<?count] @ extra) k3)"
    by blast
  have "\<forall>m \<in> set (map (ring_muscle rnd (bodies ?c) ?count 0 k1) [0..<?count] @ extra).
          bodyA (constraint m) \<noteq> bodyB (constraint m)"
    using s(2) ring_has_no_loops [of ?count rnd "bodies ?c" 0 k1] by (auto simp del: One_nat_def)
  from ensureMinimumConnections_spec [OF this, of rnd "bodies ?c" k3]
  obtain added where "fst (ensureMinimumConnections rnd (bodies ?c)
         (map (ring_muscle rnd (bodies ?c) ?count 0 k1) [0..<?count] @ extra) k3) =
       (map (ring_muscle rnd (bodies ?c) ?count 0 k1) [0..<?count] @ extra) @ added"
    by blast
  then show ?thesis
    using s(1,3) by (intro exI [of _ k1] exI [of _ "extra @ added"]) simp
qed

lemma ring_config_bounds:
  "3 / 10 \<le> stiffness (ring_config rnd k d) \<and> stiffness (ring_config rnd k d) < 1 \<and>
   (\<exists>p. period (ring_config rnd k d) = Some p \<and> 250 \<le> p \<and> p < 1450) \<and>
   (\<exists>e. extensionFactor (ring_config rnd k d) = Some e \<and> 1 \<le> e \<and> e < 17 / 10) \<and>
   restLength (ring_config rnd k d) = d"
  using Math_random_range [of rnd k] Math_random_range [of rnd "k + 2"]
    Math_random_range [of rnd "k + 3"]
  by (simp add: ring_config_def)

lemma random_index_bound: "4 + random_index rnd 0 8 \<le> 11"
  using random_index_less [of 8 rnd 0] by simp

text \<open>
  Claim C8. For every sequence of draws, the creature \<open>createRandomCreature\<close> builds has
  between 4 and 11 bodies, and for every \<open>i\<close> below the body count \<open>n\<close> its \<open>i\<close>-th muscle
  joins body \<open>i\<close> to body \<open>(i + 1) mod n\<close>, with a rest length (and an initial constraint
  length) equal to the Euclidean distance of the two bodies as created, the square root
  of the sum of the squares of their coordinate differences, a stiffness in
  \<open>[0.3, 1)\<close>, a period in \<open>[250, 1450)\<close> and an extension factor in \<open>[1, 1.7)\<close>.
\<close>

theorem C8_ring_muscles:
  "4 \<le> length (bodies (createRandomCreature rnd gy t0 t1)) \<and>
   length (bodies (createRandomCreature rnd gy t0 t1)) \<le> 11 \<and>
   length (bodies (createRandomCreature rnd gy t0 t1)) \<le> length (muscles (createRandomCreature rnd gy t0 t1)) \<and>
   (\<forall>i < length (bodies (createRandomCreature rnd gy t0 t1)).
      bodyA (constraint (muscles (createRandomCreature rnd gy t0 t1) ! i)) = i \<and>
      bodyB (constraint (muscles (createRandomCreature rnd gy t0 t1) ! i)) =
        (i + 1) mod length (bodies (createRandomCreature rnd gy t0 t1)) \<and>
      restLength (config (muscles (createRandomCreature rnd gy t0 t1) ! i)) =
        sqrt ((position_x (bodies (createRandomCreature rnd gy t0 t1) ! i) -
               position_x (bodies (createRandomCreature rnd gy t0 t1) !
                 ((i + 1) mod length (bodies (createRandomCreature rnd gy t0 t1)))))\<^sup>2 +
              (position_y (bodies (createRandomCreature rnd gy t0 t1) ! i) -
               position_y (bodies (createRandomCreature rnd gy t0 t1) !
                 ((i + 1) mod length (bodies (createRandomCreature rnd gy t0 t1)))))\<^sup>2) \<and>
      clength (constraint (muscles (createRandomCreature rnd gy t0 t1) ! i)) =
        restLength (config (muscles (createRandomCreature rnd gy t0 t1) ! i)) \<and>
      3 / 10 \<le> stiffness (config (muscles (createRandomCreature rnd gy t0 t1) ! i)) \<and>
      stiffness (config (muscles (createRandomCreature rnd gy t0 t1) ! i)) < 1 \<and>
      (\<exists>p. period (config (muscles (createRandomCreature rnd gy t0 t1) ! i)) = Some p \<and>
           250 \<le> p \<and> p < 1450) \<and>
      (\<exists>e. extensionFactor (config (muscles (createRandomCreature rnd gy t0 t1) ! i)) = Some e \<and>
           1 \<le> e \<and> e < 17 / 10))"
proof -
  let ?c = "createRandomCreature rnd gy t0 t1"
  let ?count = "4 + random_index rnd 0 8"
  from createRandomCreature_muscles [of rnd gy t0 t1]
  obtain k1 rest where
    len: "length (bodies ?c) = ?count" and
    ms: "muscles ?c = map (ring_muscle rnd (bodies ?c) ?count 0 k1) [0..<?count] @ rest"
    by blast
  have nth: "muscles ?c ! i = ring_muscle rnd (bodies ?c) ?count 0 k1 i" if "i < ?count" for i
    using that by (simp add: ms nth_append)
  have a: "4 \<le> length (bodies ?c)" "length (bodies ?c) \<le> 11"
    using random_index_bound [of rnd] by (simp_all add: len)
  have b: "length (bodies ?c) \<le> length (muscles ?c)"
    by (simp add: len ms)
  have c: "bodyA (constraint (muscles ?c ! i)) = i \<and>
      bodyB (constraint (muscles ?c ! i)) = (i + 1) mod length (bodies ?c) \<and>
      restLength (config (muscles ?c ! i)) =
        sqrt ((position_x (bodies ?c ! i) -
               position_x (bodies ?c ! ((i + 1) mod length (bodies ?c))))\<^sup>2 +
              (position_y (bodies ?c ! i) -
               position_y (bodies ?c ! ((i + 1) mod length (bodies ?c))))\<^sup>2) \<and>
      clength (constraint (muscles ?c ! i)) = restLength (config (muscles ?c ! i)) \<and>
      3 / 10 \<le> stiffness (config (muscles ?c ! i)) \<and>
      stiffness (config (muscles ?c ! i)) < 1 \<and>
      (\<exists>p. period (config (muscles ?c ! i)) = Some p \<and> 250 \<le> p \<and> p < 1450) \<and>
      (\<exists>e. extensionFactor (config (muscles ?c ! i)) = Some e \<and> 1 \<le> e \<and> e < 17 / 10)"
    if "i < length (bodies ?c)" for i
  proof -
    have i: "i < ?count" using that len by simp
    show ?thesis
      unfolding nth [OF i] len
      using ring_config_bounds [of rnd "k1 + 4 * (i - 0)"
          "getDistance (bodies ?c ! i) (bodies ?c ! ((i + 1) mod ?count))"]
      by (simp add: ring_muscle_def Muscle_new_def getDistance_def Let_def power2_eq_square)
  qed
  show ?thesis
    using a b c by blast
qed

lemma random_index_rnd_half: "random_index rnd_half k n = n div 2"
proof -
  have "\<lfloor>real n / real 2\<rfloor> = int (n div 2)"
    by (rule floor_divide_of_nat_eq)
  then show ?thesis
    by (simp add: random_index_def Math_random_rnd_half)
qed

lemma connect_body_done:
  "\<not> conn_get cm body < 2 \<Longrightarrow> connect_body rnd bs body (cm, ms, k) = (cm, ms, k)"
  by (subst connect_body.simps) simp

lemma connect_body_stuck:
  "conn_get cm body < 2 \<Longrightarrow>
   filter (\<lambda>target. target \<noteq> body \<and> conn_get cm target < 2) [0..<length bs] = [] \<Longrightarrow>
   connect_body rnd bs body (cm, ms, k) = (cm, ms, k)"
  by (subst connect_body.simps) simp

lemma connect_body_step:
  assumes "conn_get cm body < 2"
    and "filter (\<lambda>target. target \<noteq> body \<and> conn_get cm target < 2) [0..<length bs] = pts"
    and "pts \<noteq> []"
    and "pts ! random_index rnd k (length pts) = target"
  shows "connect_body rnd bs body (cm, ms, k) =
         connect_body rnd bs body
           (cm(body \<mapsto> conn_get cm body + 1,
               target \<mapsto> conn_get (cm(body \<mapsto> conn_get cm body + 1)) target + 1),
            ms @ [Muscle_new body target
                    (repair_config rnd (k + 1) (getDistance (bs ! body) (bs ! target)))],
            k + 5)"
  using assms by (subst connect_body.simps) (simp add: Let_def)

lemma upt_4: "[0..<4] = [0, 1, 2, 3]"
  by (simp add: eval_nat_numeral)

lemma square_repair:
  "map (\<lambda>m. (bodyA (constraint m), bodyB (constraint m)))
     (fst (ensureMinimumConnections rnd_half square_bodies [] 0)) = [(0, 2), (0, 2), (1, 3), (1, 3)]"
proof -
  define cm0 :: connectionMap where "cm0 = [0 \<mapsto> 0, 1 \<mapsto> 0, 2 \<mapsto> 0, 3 \<mapsto> 0]"
  have n: "length square_bodies = 4" by (simp add: square_bodies_def)
  have i: "initial_connections 4 [] = cm0"
    by (simp add: initial_connections_def upt_4 cm0_def)
  define m1 where "m1 = Muscle_new 0 2 (repair_config rnd_half 1 (getDistance (square_bodies ! 0) (square_bodies ! 2)))"
  define m2 where "m2 = Muscle_new 0 2 (repair_config rnd_half 6 (getDistance (square_bodies ! 0) (square_bodies ! 2)))"
  define m3 where "m3 = Muscle_new 1 3 (repair_config rnd_half 11 (getDistance (square_bodies ! 1) (square_bodies ! 3)))"
  define m4 where "m4 = Muscle_new 1 3 (repair_config rnd_half 16 (getDistance (square_bodies ! 1) (square_bodies ! 3)))"
  have s1: "connect_body rnd_half square_bodies 0 (cm0, [], 0) =
            connect_body rnd_half square_bodies 0 (cm0(0 \<mapsto> 1, 2 \<mapsto> 1), [m1], 5)"
    using connect_body_step [of cm0 0 square_bodies "[1, 2, 3]" rnd_half 0 2 "[]"]
    by (simp add: n upt_4 cm0_def conn_get_def random_index_rnd_half m1_def)
  have s2: "connect_body rnd_half square_bodies 0 (cm0(0 \<mapsto> 1, 2 \<mapsto> 1), [m1], 5) =
            connect_body rnd_half square_bodies 0 (cm0(0 \<mapsto> 2, 2 \<mapsto> 2), [m1, m2], 10)"
    using connect_body_step [of "cm0(0 \<mapsto> 1, 2 \<mapsto> 1)" 0 square_bodies "[1, 2, 3]" rnd_half 5 2 "[m1]"]
    by (simp add: n upt_4 cm0_def conn_get_def random_index_rnd_half m2_def numeral_2_eq_2 [symmetric])
  have s3: "connect_body rnd_half square_bodies 0 (cm0(0 \<mapsto> 2, 2 \<mapsto> 2), [m1, m2], 10) =
            (cm0(0 \<mapsto> 2, 2 \<mapsto> 2), [m1, m2], 10)"
    by (rule connect_body_done) (simp add: conn_get_def)
  have s4: "connect_body rnd_half square_bodies 1 (cm0(0 \<mapsto> 2, 2 \<mapsto> 2), [m1, m2], 10) =
            connect_body rnd_half square_bodies 1 (cm0(0 \<mapsto> 2, 2 \<mapsto> 2, 1 \<mapsto> 1, 3 \<mapsto> 1), [m1, m2, m3], 15)"
    using connect_body_step [of "cm0(0 \<mapsto> 2, 2 \<mapsto> 2)" 1 square_bodies "[3]" rnd_half 10 3 "[m1, m2]"]
    by (simp add: n upt_4 cm0_def conn_get_def random_index_rnd_half m3_def)
  have s5: "connect_body rnd_half square_bodies 1 (cm0(0 \<mapsto> 2, 2 \<mapsto> 2, 1 \<mapsto> 1, 3 \<mapsto> 1), [m1, m2, m3], 15) =
            connect_body rnd_half square_bodies 1 (cm0(0 \<mapsto> 2, 2 \<mapsto> 2, 1 \<mapsto> 2, 3 \<mapsto> 2), [m1, m2, m3, m4], 20)"
    using connect_body_step [of "cm0(0 \<mapsto> 2, 2 \<mapsto> 2, 1 \<mapsto> 1, 3 \<mapsto> 1)" 1 square_bodies "[3]" rnd_half 15 3 "[m1, m2, m3]"]
    by (simp add: n upt_4 cm0_def conn_get_def random_index_rnd_half m4_def numeral_2_eq_2 [symmetric])
  have s6: "connect_body rnd_half square_bodies b (cm0(0 \<mapsto> 2, 2 \<mapsto> 2, 1 \<mapsto> 2, 3 \<mapsto> 2), [m1, m2, m3, m4], 20) =
            (cm0(0 \<mapsto> 2, 2 \<mapsto> 2, 1 \<mapsto> 2, 3 \<mapsto> 2), [m1, m2, m3, m4], 20)" if "b < 4" for b
  proof (rule connect_body_done)
    from that consider "b = 0" | "b = 1" | "b = 2" | "b = 3" by linarith
    then show "\<not> conn_get (cm0(0 \<mapsto> 2, 2 \<mapsto> 2, 1 \<mapsto> 2, 3 \<mapsto> 2)) b < 2"
      by cases (simp_all add: conn_get_def)
  qed
  have "foldl (\<lambda>st body. connect_body rnd_half square_bodies body st) (cm0, [], 0) [0, 1, 2, 3] =
        connect_body rnd_half square_bodies 3 (connect_body rnd_half square_bodies 2
          (connect_body rnd_half square_bodies 1 (connect_body rnd_half square_bodies 0 (cm0, [], 0))))"
    by (simp only: foldl_Cons foldl_Nil)
  also have "\<dots> = (cm0(0 \<mapsto> 2, 2 \<mapsto> 2, 1 \<mapsto> 2, 3 \<mapsto> 2), [m1, m2, m3, m4], 20)"
    using s6 [of 1] s6 [of 2] s6 [of 3] by (simp only: s1 s2 s3 s4 s5)
  finally have "fst (ensureMinimumConnections rnd_half square_bodies [] 0) = [m1, m2, m3, m4]"
    by (simp add: ensureMinimumConnections_def n i upt_4)
  then show ?thesis
    by (simp add: m1_def m2_def m3_def m4_def Muscle_new_def)
qed


lemma doubled_pair_repair:
  "fst (ensureMinimumConnections rnd_half (take 3 square_bodies) doubled_pair 0) = doubled_pair"
proof -
  define cm where "cm = initial_connections 3 doubled_pair"
  have upt_3: "[0..<3] = [0, Suc 0, 2]" by (simp add: eval_nat_numeral)
  have c: "conn_get cm 0 = 2" "conn_get cm (Suc 0) = 2" "conn_get cm 2 = 0"
    by (simp_all add: cm_def initial_connections_def doubled_pair_def example_muscle_def
        Muscle_new_def count_muscle_def conn_get_def upt_3)
  have n: "length (take 3 square_bodies) = 3" by (simp add: square_bodies_def)
  have s0: "connect_body rnd_half (take 3 square_bodies) 0 (cm, doubled_pair, 0) = (cm, doubled_pair, 0)"
    by (rule connect_body_done) (simp add: c)
  have s1: "connect_body rnd_half (take 3 square_bodies) (Suc 0) (cm, doubled_pair, 0) = (cm, doubled_pair, 0)"
    by (rule connect_body_done) (simp add: c)
  have s2: "connect_body rnd_half (take 3 square_bodies) 2 (cm, doubled_pair, 0) = (cm, doubled_pair, 0)"
    by (rule connect_body_stuck) (simp_all add: c n upt_3 del: length_take)
  have "foldl (\<lambda>st body. connect_body rnd_half (take 3 square_bodies) body st) (cm, doubled_pair, 0) [0, Suc 0, 2] =
        (cm, doubled_pair, 0)"
    by (simp only: foldl_Cons foldl_Nil s0 s1 s2)
  then show ?thesis
    by (simp add: ensureMinimumConnections_def n upt_3 cm_def [symmetric] del: length_take)
qed

lemma ring_degree:
  assumes "b < count" and "2 \<le> count"
  shows "2 \<le> incident (map (ring_muscle rnd bs count i k) [0..<count]) b"
proof -
  define p where "p = (if b = 0 then count - 1 else b - 1)"
  have p: "p < count" "p \<noteq> b" "Suc p mod count = b"
    using assms by (auto simp: p_def)
  let ?Q = "\<lambda>j. j = b \<or> Suc j mod count = b"
  have "incident (map (ring_muscle rnd bs count i k) [0..<count]) b = length (filter ?Q [0..<count])"
    by (simp add: incident_def filter_map comp_def ring_muscle_ends)
  also have "\<dots> = card ({j. ?Q j} \<inter> set [0..<count])"
    by (simp add: distinct_length_filter)
  finally have eq: "incident (map (ring_muscle rnd bs count i k) [0..<count]) b =
      card ({j. ?Q j} \<inter> set [0..<count])" .
  have "{b, p} \<subseteq> {j. ?Q j} \<inter> set [0..<count]"
    using assms(1) p by auto
  then have "card {b, p} \<le> card ({j. ?Q j} \<inter> set [0..<count])"
    by (intro card_mono) simp_all
  moreover have "card {b, p} = 2"
    using p(2) by simp
  ultimately show ?thesis
    using eq by simp
qed

lemma generated_degree:
  assumes "b < length (bodies (createRandomCreature rnd gy t0 t1))"
  shows "2 \<le> incident (muscles (createRandomCreature rnd gy t0 t1)) b"
proof -
  let ?c = "createRandomCreature rnd gy t0 t1"
  let ?count = "4 + random_index rnd 0 8"
  from createRandomCreature_muscles [of rnd gy t0 t1]
  obtain k1 rest where
    len: "length (bodies ?c) = ?count" and
    ms: "muscles ?c = map (ring_muscle rnd (bodies ?c) ?count 0 k1) [0..<?count] @ rest"
    by blast
  have "2 \<le> incident (map (ring_muscle rnd (bodies ?c) ?count 0 k1) [0..<?count]) b"
    using assms len by (intro ring_degree) simp_all
  also have "\<dots> \<le> incident (muscles ?c) b"
    unfolding ms by (rule incident_append_ge)
  finally show ?thesis .
qed

lemma settled_incident:
  assumes t: "tracks n cm ms" and s: "\<forall>b<n. settled n cm b"
    and b: "b < n" "incident ms b < 2" and u: "u < n" "u \<noteq> b"
  shows "2 \<le> incident ms u"
proof -
  have "conn_get cm b < 2" using t b by (simp add: tracks_def)
  then have "\<forall>x<n. x \<noteq> b \<longrightarrow> 2 \<le> conn_get cm x"
    using s b(1) by (auto simp: settled_def)
  then have "2 \<le> conn_get cm u" using u by simp
  then show ?thesis using t u(1) by (simp add: tracks_def)
qed

text \<open>
  Claim C7. Let the muscles handed to the repair join different bodies (as the muscles of
  \<open>createRandomCreature\<close> do). Then \<open>ensureMinimumConnections\<close> only appends muscles; each
  muscle it appends joins two different bodies that both had fewer than 2 incident
  muscles at the moment it was added; and when it is done, a body with fewer than 2
  incident muscles is the only such body: every other body has at least 2. In a creature
  that \<open>createRandomCreature\<close> returns every body has at least 2 incident muscles.
\<close>

theorem C7_connectivity_repair:
  "((\<forall>m \<in> set ms. bodyA (constraint m) \<noteq> bodyB (constraint m)) \<longrightarrow>
      (\<exists>added.
         fst (ensureMinimumConnections rnd bs ms k) = ms @ added \<and>
         (\<forall>j < length added.
            bodyA (constraint (added ! j)) < length bs \<and>
            bodyB (constraint (added ! j)) < length bs \<and>
            bodyA (constraint (added ! j)) \<noteq> bodyB (constraint (added ! j)) \<and>
            incident (ms @ take j added) (bodyA (constraint (added ! j))) < 2 \<and>
            incident (ms @ take j added) (bodyB (constraint (added ! j))) < 2) \<and>
         (\<forall>b < length bs. incident (ms @ added) b < 2 \<longrightarrow>
            (\<forall>u < length bs. u \<noteq> b \<longrightarrow> 2 \<le> incident (ms @ added) u)))) \<and>
   (\<forall>b < length (bodies (createRandomCreature rnd gy t0 t1)).
      2 \<le> incident (muscles (createRandomCreature rnd gy t0 t1)) b)"
proof (intro conjI impI allI)
  assume loops: "\<forall>m \<in> set ms. bodyA (constraint m) \<noteq> bodyB (constraint m)"
  from ensureMinimumConnections_spec [OF loops, of rnd bs k]
  obtain cm' added where
    e: "fst (ensureMinimumConnections rnd bs ms k) = ms @ added"
      "tracks (length bs) cm' (ms @ added)" "repairs (length bs) ms added"
      "\<forall>b < length bs. settled (length bs) cm' b"
    by blast
  have "\<forall>j < length added.
            bodyA (constraint (added ! j)) < length bs \<and>
            bodyB (constraint (added ! j)) < length bs \<and>
            bodyA (constraint (added ! j)) \<noteq> bodyB (constraint (added ! j)) \<and>
            incident (ms @ take j added) (bodyA (constraint (added ! j))) < 2 \<and>
            incident (ms @ take j added) (bodyB (constraint (added ! j))) < 2"
    using repairs_nth [OF e(3)] by blast
  moreover have "\<forall>b < length bs. incident (ms @ added) b < 2 \<longrightarrow>
            (\<forall>u < length bs. u \<noteq> b \<longrightarrow> 2 \<le> incident (ms @ added) u)"
    using settled_incident [OF e(2) e(4)] by blast
  ultimately show "\<exists>added.
         fst (ensureMinimumConnections rnd bs ms k) = ms @ added \<and>
         (\<forall>j < length added.
            bodyA (constraint (added ! j)) < length bs \<and>
            bodyB (constraint (added ! j)) < length bs \<and>
            bodyA (constraint (added ! j)) \<noteq> bodyB (constraint (added ! j)) \<and>
            incident (ms @ take j added) (bodyA (constraint (added ! j))) < 2 \<and>
            incident (ms @ take j added) (bodyB (constraint (added ! j))) < 2) \<and>
         (\<forall>b < length bs. incident (ms @ added) b < 2 \<longrightarrow>
            (\<forall>u < length bs. u \<noteq> b \<longrightarrow> 2 \<le> incident (ms @ added) u))"
    using e(1) by blast
next
  fix b assume "b < length (bodies (createRandomCreature rnd gy t0 t1))"
  then show "2 \<le> incident (muscles (createRandomCreature rnd gy t0 t1)) b"
    by (rule generated_degree)
qed

lemma incident_pairs:
  "incident ms b =
     length (filter (\<lambda>p. fst p = b \<or> snd p = b)
       (map (\<lambda>m. (bodyA (constraint m), bodyB (constraint m))) ms))"
  by (simp add: incident_def filter_map comp_def)

theorem C7_connectivity_repair_witness:
  "map (\<lambda>m. (bodyA (constraint m), bodyB (constraint m)))
     (fst (ensureMinimumConnections rnd_half square_bodies [] 0)) = [(0, 2), (0, 2), (1, 3), (1, 3)] \<and>
   map (incident (fst (ensureMinimumConnections rnd_half square_bodies [] 0))) [0, 1, 2, 3] = [2, 2, 2, 2] \<and>
   bodyA (constraint example_muscle) \<noteq> bodyB (constraint example_muscle) \<and>
   fst (ensureMinimumConnections rnd_half (take 3 square_bodies) doubled_pair 0) = doubled_pair \<and>
   map (incident doubled_pair) [0, 1, 2] = [2, 2, 0] \<and>
   2 \<le> incident (muscles half_creature) 0"
proof -
  have a: "map (incident (fst (ensureMinimumConnections rnd_half square_bodies [] 0))) [0, 1, 2, 3]
        = [2, 2, 2, 2]"
    by (simp add: incident_pairs square_repair)
  have b: "bodyA (constraint example_muscle) \<noteq> bodyB (constraint example_muscle)"
    by (simp add: example_muscle_def Muscle_new_def)
  have c: "map (incident doubled_pair) [0, 1, 2] = [2, 2, 0]"
    by (simp add: incident_def doubled_pair_def example_muscle_def Muscle_new_def)
  have d: "\<forall>m \<in> set doubled_pair. bodyA (constraint m) \<noteq> bodyB (constraint m)"
    using b by (simp add: doubled_pair_def)
  have e: "0 < length (bodies half_creature)"
    using createRandomCreature_muscles [of rnd_half 300 1000 1000]
    by (auto simp: half_creature_def)
  show ?thesis
    using a b c d e square_repair doubled_pair_repair
      C7_connectivity_repair [of doubled_pair rnd_half "take 3 square_bodies" 0 300 1000 1000]
    by (simp add: half_creature_def)
qed

lemma half_creature_bodies:
  "bodies half_creature ! 0 = PhysicsBody_new (- 70) 200"
  "bodies half_creature ! 1 = PhysicsBody_new (- 100 + 15 * sqrt 2) (200 + 15 * sqrt 2)"
  by (simp_all add: half_creature_def bodies_createRandomCreature random_index_rnd_half
      placed_body_def Math_random_rnd_half cos_45 sin_45)


theorem C8_ring_muscles_witness:
  "length (bodies half_creature) = 8 \<and>
   bodyA (constraint (muscles half_creature ! 7)) = 7 \<and>
   bodyB (constraint (muscles half_creature ! 7)) = 0 \<and>
   restLength (config (muscles half_creature ! 7)) =
     sqrt ((position_x (bodies half_creature ! 7) - position_x (bodies half_creature ! 0))\<^sup>2 +
           (position_y (bodies half_creature ! 7) - position_y (bodies half_creature ! 0))\<^sup>2) \<and>
   stiffness (config (muscles half_creature ! 7)) = 13 / 20 \<and>
   period (config (muscles half_creature ! 7)) = Some 850 \<and>
   extensionFactor (config (muscles half_creature ! 7)) = Some (27 / 20) \<and>
   bodies half_creature ! 0 = PhysicsBody_new (- 70) 200 \<and>
   bodies half_creature ! 1 = PhysicsBody_new (- 100 + 15 * sqrt 2) (200 + 15 * sqrt 2) \<and>
   bodyA (constraint (muscles half_creature ! 0)) = 0 \<and>
   bodyB (constraint (muscles half_creature ! 0)) = 1 \<and>
   restLength (config (muscles half_creature ! 0)) =
     sqrt ((- 70 - (- 100 + 15 * sqrt 2))\<^sup>2 + (200 - (200 + 15 * sqrt 2))\<^sup>2)"
proof -
  from createRandomCreature_muscles [of rnd_half 300 1000 1000]
  obtain k1 rest where
    len: "length (bodies half_creature) = 8" and
    ms: "muscles half_creature = map (ring_muscle rnd_half (bodies half_creature) 8 0 k1) [0..<8] @ rest"
    by (auto simp: half_creature_def random_index_rnd_half)
  have m: "muscles half_creature ! 7 = ring_muscle rnd_half (bodies half_creature) 8 0 k1 7"
    by (simp add: ms nth_append)
  have v: "stiffness (config (muscles half_creature ! 7)) = 13 / 20"
    "period (config (muscles half_creature ! 7)) = Some 850"
    "extensionFactor (config (muscles half_creature ! 7)) = Some (27 / 20)"
    by (simp_all add: m ring_muscle_def Muscle_new_def ring_config_def Math_random_rnd_half)
  have t: "\<forall>i < 8.
      bodyA (constraint (muscles half_creature ! i)) = i \<and>
      bodyB (constraint (muscles half_creature ! i)) = (i + 1) mod 8 \<and>
      restLength (config (muscles half_creature ! i)) =
        sqrt ((position_x (bodies half_creature ! i) -
               position_x (bodies half_creature ! ((i + 1) mod 8)))\<^sup>2 +
              (position_y (bodies half_creature ! i) -
               position_y (bodies half_creature ! ((i + 1) mod 8)))\<^sup>2)"
    using C8_ring_muscles [of rnd_half 300 1000 1000] len
    by (simp add: half_creature_def [symmetric])
  have t7: "bodyA (constraint (muscles half_creature ! 7)) = 7"
    "bodyB (constraint (muscles half_creature ! 7)) = 0"
    "restLength (config (muscles half_creature ! 7)) =
     sqrt ((position_x (bodies half_creature ! 7) - position_x (bodies half_creature ! 0))\<^sup>2 +
           (position_y (bodies half_creature ! 7) - position_y (bodies half_creature ! 0))\<^sup>2)"
    using t [rule_format, of 7] by simp_all
  have t0: "bodyA (constraint (muscles half_creature ! 0)) = 0"
    "bodyB (constraint (muscles half_creature ! 0)) = 1"
    "restLength (config (muscles half_creature ! 0)) =
     sqrt ((position_x (bodies half_creature ! 0) - position_x (bodies half_creature ! 1))\<^sup>2 +
           (position_y (bodies half_creature ! 0) - position_y (bodies half_creature ! 1))\<^sup>2)"
    using t [rule_format, of 0] by simp_all
  have r0: "restLength (config (muscles half_creature ! 0)) =
     sqrt ((- 70 - (- 100 + 15 * sqrt 2))\<^sup>2 + (200 - (200 + 15 * sqrt 2))\<^sup>2)"
    unfolding t0(3) half_creature_bodies by (simp only: PhysicsBody_new_def Body.simps)
  show ?thesis
    using len v t7 t0(1,2) r0 half_creature_bodies by blast
qed

subsection \<open>The histogram\<close>








subsection \<open>The recorded distances\<close>








subsection \<open>The world's bookkeeping along a run\<close>









lemma creatureMaxDistances_spawn [simp]:
  "creatureMaxDistances (mainWorld (spawn rnd t0 t1 now s)) = creatureMaxDistances (mainWorld s)"
  by (simp add: spawn_def Let_def addCreature_def)






subsection \<open>Two concrete runs\<close>
























lemma distanceBins_spawn [simp]:
  "distanceBins (mainWorld (spawn rnd t0 t1 now s)) = distanceBins (mainWorld s)"
  by (simp add: spawn_def Let_def addCreature_def)







end
